theory Spec2Isabelle
  imports
    Main
    "HOL-Library.Char_ord"
    "HOL-Library.List_Lexorder"
    "HOL-Library.Multiset"
    "HOL-Library.Sublist"
begin

section \<open>exhibitor2dns: data model\<close>

text \<open>
  The program (\<^verbatim>\<open>src/exhibitor2dns/main.py\<close>) reads the member list of a Zookeeper
  ensemble from Exhibitor and brings Route53 A records in line with it.

  Strings are byte strings (\<open>char list\<close>); with \<open>Char_ord\<close> and \<open>List_Lexorder\<close> the
  order on them is the lexicographic order on character codes, which is the order of
  Python's \<^verbatim>\<open>sorted\<close> on \<^verbatim>\<open>str\<close>. \<open>sort\<close> is therefore the model of
  \<^verbatim>\<open>sorted\<close> on a list of strings.

  Exceptions are values of \<open>py_error\<close>; every constructor stands for a subclass of
  Python's \<^verbatim>\<open>Exception\<close>.
\<close>

datatype py_error =
    IndexError
  | KeyError
  | TypeError
  | HTTPError string
  | JSONDecodeError
  | ProviderError string

subsection \<open>Command line\<close>

record args =
  zone :: string
  rr :: string
  exhibitor_url :: string
  ttl :: int
  verbosity :: int

subsection \<open>Exhibitor's HTTP endpoint\<close>

text \<open>
  \<^verbatim>\<open>requests.get(url, headers=headers)\<close> either raises or gives a response; the
  response's \<^verbatim>\<open>.json()\<close> either raises or gives the decoded document, a dictionary
  whose values are lists of address strings (the shape of Exhibitor's cluster list).
\<close>

record http_response =
  json :: "py_error + (string \<rightharpoonup> string list)"

record http =
  http_get :: "string \<Rightarrow> (string \<times> string) list \<Rightarrow> py_error + http_response"

subsection \<open>Route53 requests and responses\<close>

text \<open>
  Responses are dictionaries read with \<^verbatim>\<open>.get\<close>, so every key may be missing:
  a missing key is \<open>None\<close>.
\<close>

record hosted_zone =
  zone_Id :: "string option"

record hosted_zones_response =
  HostedZones :: "hosted_zone list option"

record resource_record =
  Value :: "string option"

record record_set =
  Name :: "string option"
  ResourceRecords :: "resource_record list option"

record rrsets_response =
  ResourceRecordSets :: "record_set list option"

record resource_record_set =
  rrs_Name :: string
  rrs_Type :: string
  rrs_TTL :: int
  rrs_ResourceRecords :: "resource_record list"

record change =
  Action :: string
  ResourceRecordSet :: resource_record_set

record change_batch =
  Changes :: "change list"

text \<open>
  The boto3 client is a parameter of the model. The record sets it serves are its state
  \<open>'p\<close>: listing reads the state, a change returns the next state together with the
  exception it raised, if any. The catalogue of hosted zones is not touched by the
  program, so the zone lookup is a function of the name alone. The hosted zone id is
  whatever \<^verbatim>\<open>.get('Id')\<close> gave, possibly \<open>None\<close>.
\<close>

record 'p client =
  list_hosted_zones_by_name :: "string \<Rightarrow> py_error + hosted_zones_response"
  list_resource_record_sets ::
    "'p \<Rightarrow> string option \<Rightarrow> string \<Rightarrow> string \<Rightarrow> py_error + rrsets_response"
  change_resource_record_sets ::
    "'p \<Rightarrow> string option \<Rightarrow> change_batch \<Rightarrow> py_error option \<times> 'p"

subsection \<open>The observable trace\<close>

text \<open>
  Every call of \<^verbatim>\<open>logging\<close> and every request to the provider or to Exhibitor is
  recorded, in program order, in the trace of the world.
\<close>

datatype log_line =
    Managing string
  | ExhibitorCluster "string list"
  | ExistingRecord "string list"
  | UpdatingRecord
  | UpToDate
  | CreatingNew
  | CreatingNewNamed string
  | TargetIp string string
  | Done
  | LoggedException py_error

datatype event =
    Log log_line
  | ZoneLookup string
  | HttpGet string "(string \<times> string) list"
  | ListCall "string option" string string
  | ChangeCall "string option" change_batch

record 'p world =
  provider :: 'p
  trace :: "event list"

definition emit :: "event \<Rightarrow> 'p world \<Rightarrow> 'p world" where
  "emit e w = w\<lparr>trace := trace w @ [e]\<rparr>"

definition logging_info :: "log_line \<Rightarrow> 'p world \<Rightarrow> 'p world" where
  "logging_info l w = emit (Log l) w"

section \<open>The program\<close>

subsection \<open>\<^verbatim>\<open>get_zk_servers\<close>\<close>

definition rstrip :: "char \<Rightarrow> string \<Rightarrow> string" where
  "rstrip c s = rev (dropWhile (\<lambda>x. x = c) (rev s))"

definition get_zk_servers ::
  "http \<Rightarrow> string \<Rightarrow> 'p world \<Rightarrow> (py_error + string list) \<times> 'p world" where
  "get_zk_servers h url0 w =
     (let headers = [(''accept'', ''application/json'')];
          url = concat [rstrip (CHR ''/'') url0, ''/exhibitor/v1/cluster/list''];
          w1 = emit (HttpGet url headers) w
      in case http_get h url headers of
           Inl e \<Rightarrow> (Inl e, w1)
         | Inr resp \<Rightarrow>
             (case json resp of
                Inl e \<Rightarrow> (Inl e, w1)
              | Inr doc \<Rightarrow>
                  (case doc ''servers'' of
                     None \<Rightarrow> (Inl KeyError, w1)
                   | Some servers \<Rightarrow> (Inr (sort servers), w1))))"

subsection \<open>\<^verbatim>\<open>upsert_record\<close>\<close>

definition upsert_change :: "string \<Rightarrow> int \<Rightarrow> resource_record list \<Rightarrow> change_batch" where
  "upsert_change target_fqdn t resource_records =
     \<lparr>Changes =
        [\<lparr>Action = ''UPSERT'',
          ResourceRecordSet =
            \<lparr>rrs_Name = target_fqdn, rrs_Type = ''A'', rrs_TTL = t,
             rrs_ResourceRecords = resource_records\<rparr>\<rparr>]\<rparr>"

text \<open>The body of the \<^verbatim>\<open>try\<close> block: it raises what the provider raises.\<close>

definition upsert_try ::
  "'p client \<Rightarrow> string option \<Rightarrow> string \<Rightarrow> string list \<Rightarrow> int \<Rightarrow> 'p world \<Rightarrow>
     (py_error + unit) \<times> 'p world" where
  "upsert_try c hosted_zone_id target_fqdn ip_list t w =
     (let resource_records = map (\<lambda>v. \<lparr>Value = Some v\<rparr>) ip_list
      in if resource_records \<noteq> [] then
           (let batch = upsert_change target_fqdn t resource_records;
                w1 = emit (ChangeCall hosted_zone_id batch) w
            in case change_resource_record_sets c (provider w1) hosted_zone_id batch of
                 (Some e, p) \<Rightarrow> (Inl e, w1\<lparr>provider := p\<rparr>)
               | (None, p) \<Rightarrow> (Inr (), w1\<lparr>provider := p\<rparr>))
         else (Inr (), w))"

text \<open>\<^verbatim>\<open>except Exception as e: logging.exception(e)\<close> around the body.\<close>

definition upsert_record ::
  "'p client \<Rightarrow> string option \<Rightarrow> string \<Rightarrow> string list \<Rightarrow> int \<Rightarrow> 'p world \<Rightarrow>
     (py_error + unit) \<times> 'p world" where
  "upsert_record c hosted_zone_id target_fqdn ip_list t w =
     (case upsert_try c hosted_zone_id target_fqdn ip_list t w of
        (Inl e, w1) \<Rightarrow> (Inr (), logging_info (LoggedException e) w1)
      | (Inr u, w1) \<Rightarrow> (Inr u, w1))"

subsection \<open>\<^verbatim>\<open>fetch_existing_resource_records\<close>\<close>

definition record_set_name :: "record_set \<Rightarrow> string" where
  "record_set_name record_set = (case Name record_set of None \<Rightarrow> '''' | Some n \<Rightarrow> n)"

text \<open>The inner loop over the records of one record set.\<close>

fun collect_records :: "resource_record list \<Rightarrow> string list \<Rightarrow> string list" where
  "collect_records [] resource_records = resource_records"
| "collect_records (r # rs) resource_records =
     (case Value r of
        Some v \<Rightarrow> collect_records rs (resource_records @ [v])
      | None \<Rightarrow> collect_records rs resource_records)"

text \<open>The outer loop over the record sets of the response.\<close>

fun collect_record_sets :: "string \<Rightarrow> record_set list \<Rightarrow> string list \<Rightarrow> string list" where
  "collect_record_sets target_fqdn [] resource_records = resource_records"
| "collect_record_sets target_fqdn (s # ss) resource_records =
     (if record_set_name s \<noteq> target_fqdn
      then collect_record_sets target_fqdn ss resource_records
      else collect_record_sets target_fqdn ss
             (collect_records
                (case ResourceRecords s of None \<Rightarrow> [] | Some rs \<Rightarrow> rs)
                resource_records))"

definition existing_of_response :: "string \<Rightarrow> rrsets_response \<Rightarrow> string list" where
  "existing_of_response target_fqdn res =
     sort (collect_record_sets target_fqdn
             (case ResourceRecordSets res of None \<Rightarrow> [] | Some ss \<Rightarrow> ss) [])"

definition fetch_existing_resource_records ::
  "'p client \<Rightarrow> string option \<Rightarrow> string \<Rightarrow> 'p world \<Rightarrow> (py_error + string list) \<times> 'p world" where
  "fetch_existing_resource_records c hosted_zone_id target_fqdn w =
     (let w1 = emit (ListCall hosted_zone_id target_fqdn ''A'') w
      in case list_resource_record_sets c (provider w1) hosted_zone_id target_fqdn ''A'' of
           Inl e \<Rightarrow> (Inl e, w1)
         | Inr res \<Rightarrow> (Inr (existing_of_response target_fqdn res), w1))"

subsection \<open>\<^verbatim>\<open>main\<close>\<close>

text \<open>
  Lines 62 to 71 and 81 to 90: the decision for one record. The source has it inline
  twice; the two copies differ only in the line logged on creation, which is the
  parameter \<open>creating\<close>.
\<close>

definition reconcile ::
  "'p client \<Rightarrow> string option \<Rightarrow> string \<Rightarrow> string list \<Rightarrow> int \<Rightarrow> log_line \<Rightarrow>
     string list \<Rightarrow> 'p world \<Rightarrow> (py_error + unit) \<times> 'p world" where
  "reconcile c hosted_zone_id target_fqdn desired t creating existing_record w =
     (if existing_record \<noteq> [] then
        (let w1 = logging_info (ExistingRecord existing_record) w
         in if sort desired \<noteq> sort existing_record then
              upsert_record c hosted_zone_id target_fqdn desired t
                (logging_info UpdatingRecord w1)
            else (Inr (), logging_info UpToDate w1))
      else
        upsert_record c hosted_zone_id target_fqdn desired t (logging_info creating w))"

text \<open>Lines 50 to 53. \<^verbatim>\<open>args.rr[-1]\<close> raises on the empty string.\<close>

definition aggregate_fqdn :: "string \<Rightarrow> string \<Rightarrow> py_error + string" where
  "aggregate_fqdn r z =
     (if r = [] then Inl IndexError
      else if last r = CHR ''.'' then Inr r
      else Inr (r @ ''.'' @ z @ ''.''))"

text \<open>\<^verbatim>\<open>"%02d" % idx\<close> for the ranks \<open>idx\<close> of the loop, which are natural numbers.\<close>

definition digit_char :: "nat \<Rightarrow> char" where
  "digit_char d = char_of (48 + d)"

fun decimal :: "nat \<Rightarrow> string" where
  "decimal n = (if n < 10 then [digit_char n] else decimal (n div 10) @ [digit_char (n mod 10)])"

declare decimal.simps [simp del]

definition fmt_02d :: "nat \<Rightarrow> string" where
  "fmt_02d n = replicate (2 - length (decimal n)) (CHR ''0'') @ decimal n"

definition member_fqdn :: "string \<Rightarrow> nat \<Rightarrow> string" where
  "member_fqdn z idx = ''zk'' @ fmt_02d idx @ ''.'' @ z @ ''.''"

text \<open>Lines 73 to 90: the loop over \<^verbatim>\<open>enumerate(sorted(exhibitor_list))\<close>.\<close>

fun member_loop ::
  "'p client \<Rightarrow> string option \<Rightarrow> string \<Rightarrow> int \<Rightarrow> (nat \<times> string) list \<Rightarrow> 'p world \<Rightarrow>
     (py_error + unit) \<times> 'p world" where
  "member_loop c hosted_zone_id z t [] w = (Inr (), w)"
| "member_loop c hosted_zone_id z t ((i, zkserver_ip) # rest) w =
     (let idx = i + 1;
          target_fqdn = member_fqdn z idx;
          w1 = logging_info (TargetIp target_fqdn zkserver_ip) w;
          ip_list = [zkserver_ip]
      in case fetch_existing_resource_records c hosted_zone_id target_fqdn w1 of
           (Inl e, w2) \<Rightarrow> (Inl e, w2)
         | (Inr existing_record, w2) \<Rightarrow>
             (case reconcile c hosted_zone_id target_fqdn ip_list t
                     (CreatingNewNamed target_fqdn) existing_record w2 of
                (Inl e, w3) \<Rightarrow> (Inl e, w3)
              | (Inr u, w3) \<Rightarrow> member_loop c hosted_zone_id z t rest w3))"

text \<open>Lines 47 and 48: \<^verbatim>\<open>zone.get('HostedZones')[0].get('Id')\<close>.\<close>

definition resolve_zone ::
  "'p client \<Rightarrow> string \<Rightarrow> 'p world \<Rightarrow> (py_error + string option) \<times> 'p world" where
  "resolve_zone c z w =
     (let w1 = emit (ZoneLookup z) w
      in case list_hosted_zones_by_name c z of
           Inl e \<Rightarrow> (Inl e, w1)
         | Inr resp \<Rightarrow>
             (case HostedZones resp of
                None \<Rightarrow> (Inl TypeError, w1)
              | Some [] \<Rightarrow> (Inl IndexError, w1)
              | Some (hz # _) \<Rightarrow> (Inr (zone_Id hz), w1)))"

definition main :: "'p client \<Rightarrow> http \<Rightarrow> args \<Rightarrow> 'p world \<Rightarrow> (py_error + unit) \<times> 'p world" where
  "main c h a w =
     (case resolve_zone c (zone a) w of
        (Inl e, w1) \<Rightarrow> (Inl e, w1)
      | (Inr hosted_zone_id, w1) \<Rightarrow>
     (case aggregate_fqdn (rr a) (zone a) of
        Inl e \<Rightarrow> (Inl e, w1)
      | Inr target_fqdn \<Rightarrow>
     (case get_zk_servers h (exhibitor_url a) (logging_info (Managing target_fqdn) w1) of
        (Inl e, w2) \<Rightarrow> (Inl e, w2)
      | (Inr exhibitor_list, w2) \<Rightarrow>
     (case fetch_existing_resource_records c hosted_zone_id target_fqdn
             (logging_info (ExhibitorCluster exhibitor_list) w2) of
        (Inl e, w3) \<Rightarrow> (Inl e, w3)
      | (Inr existing_record, w3) \<Rightarrow>
     (case reconcile c hosted_zone_id target_fqdn exhibitor_list (ttl a) CreatingNew
             existing_record w3 of
        (Inl e, w4) \<Rightarrow> (Inl e, w4)
      | (Inr u, w4) \<Rightarrow>
     (case member_loop c hosted_zone_id (zone a) (ttl a)
             (enumerate 0 (sort exhibitor_list)) w4 of
        (Inl e, w5) \<Rightarrow> (Inl e, w5)
      | (Inr u, w5) \<Rightarrow> (Inr (), logging_info Done w5)))))))"

section \<open>Observations and specification notions\<close>

subsection \<open>Projections of a trace\<close>

text \<open>
  The change batches submitted, the names read, and the per-member lines logged
  (\<^verbatim>\<open>target_fqdn: ... ip: ...\<close>), each in program order.
\<close>

fun change_calls :: "event list \<Rightarrow> change_batch list" where
  "change_calls [] = []"
| "change_calls (ChangeCall zid b # es) = b # change_calls es"
| "change_calls (_ # es) = change_calls es"

fun list_calls :: "event list \<Rightarrow> string list" where
  "list_calls [] = []"
| "list_calls (ListCall zid n ty # es) = n # list_calls es"
| "list_calls (_ # es) = list_calls es"

fun target_lines :: "event list \<Rightarrow> (string \<times> string) list" where
  "target_lines [] = []"
| "target_lines (Log (TargetIp n ip) # es) = (n, ip) # target_lines es"
| "target_lines (_ # es) = target_lines es"

subsection \<open>What the reader is specified to return\<close>

text \<open>
  The values of one record set of a response, and the values of all record sets of a
  response that carry the queried name, in the order of the response.
\<close>

definition record_set_values :: "record_set \<Rightarrow> string list" where
  "record_set_values s =
     List.map_filter Value (case ResourceRecords s of None \<Rightarrow> [] | Some rs \<Rightarrow> rs)"

definition matching_values :: "string \<Rightarrow> rrsets_response \<Rightarrow> string list" where
  "matching_values target_fqdn res =
     concat (map record_set_values
       (filter (\<lambda>s. record_set_name s = target_fqdn)
          (case ResourceRecordSets res of None \<Rightarrow> [] | Some ss \<Rightarrow> ss)))"

subsection \<open>When a reconcile step writes\<close>

text \<open>
  A reconcile step reaches the provider when the desired list is non-empty and the
  existing list is empty or differs from it after sorting.
\<close>

definition needs_upsert :: "string list \<Rightarrow> string list \<Rightarrow> bool" where
  "needs_upsert desired existing \<longleftrightarrow>
     desired \<noteq> [] \<and> (existing = [] \<or> sort desired \<noteq> sort existing)"

subsection \<open>Changes a run may submit\<close>

text \<open>
  A change batch that is a non-empty list of UPSERT changes with at least one value
  each; and a later world whose change calls are those of an earlier world followed by
  such batches only.
\<close>

definition nonempty_upsert :: "change_batch \<Rightarrow> bool" where
  "nonempty_upsert b \<longleftrightarrow>
     Changes b \<noteq> [] \<and>
     list_all (\<lambda>ch. Action ch = ''UPSERT'' \<and> rrs_ResourceRecords (ResourceRecordSet ch) \<noteq> [])
       (Changes b)"

definition only_adds_upserts :: "'p world \<Rightarrow> 'p world \<Rightarrow> bool" where
  "only_adds_upserts w w' \<longleftrightarrow>
     take (length (change_calls (trace w))) (change_calls (trace w')) = change_calls (trace w)
     \<and> list_all nonempty_upsert
         (drop (length (change_calls (trace w))) (change_calls (trace w')))"

subsection \<open>What an upsert is assumed to do\<close>

text \<open>
  \<open>fetched\<close> is what the reader returns for a name in a given provider state. An upsert
  takes effect when, for a non-empty value list, a later read of the record returns the
  sorted value list and reads of every other name return what they returned before.
\<close>

definition fetched :: "'p client \<Rightarrow> 'p \<Rightarrow> string option \<Rightarrow> string \<Rightarrow> py_error + string list" where
  "fetched c p zid n =
     (case list_resource_record_sets c p zid n ''A'' of
        Inl e \<Rightarrow> Inl e
      | Inr res \<Rightarrow> Inr (existing_of_response n res))"

definition upsert_takes_effect :: "'p client \<Rightarrow> bool" where
  "upsert_takes_effect c \<longleftrightarrow>
     (\<forall>p zid n t vs. vs \<noteq> [] \<longrightarrow>
        fetched c (snd (change_resource_record_sets c p zid
                          (upsert_change n t (map (\<lambda>v. \<lparr>Value = Some v\<rparr>) vs)))) zid n
          = Inr (sort vs)
        \<and> (\<forall>n'. n' \<noteq> n \<longrightarrow>
              fetched c (snd (change_resource_record_sets c p zid
                                (upsert_change n t (map (\<lambda>v. \<lparr>Value = Some v\<rparr>) vs)))) zid n'
                = fetched c p zid n'))"

subsection \<open>The records of a run, reconciled in order\<close>

text \<open>
  Reconciling a list of records (name, desired values) in order against a provider
  state: each record is read; when it needs an upsert, the UPSERT of its desired values
  is submitted and the provider moves on to the state that change leaves, whatever the
  change raised. The result is the list of change batches submitted and the last
  provider state.
\<close>

fun run_plan ::
  "'p client \<Rightarrow> string option \<Rightarrow> int \<Rightarrow> (string \<times> string list) list \<Rightarrow> 'p \<Rightarrow>
     change_batch list \<times> 'p" where
  "run_plan c zid t [] p = ([], p)"
| "run_plan c zid t ((n, desired) # rest) p =
     (case fetched c p zid n of
        Inl e \<Rightarrow> ([], p)
      | Inr existing \<Rightarrow>
          if needs_upsert desired existing then
            (let b = upsert_change n t (map (\<lambda>v. \<lparr>Value = Some v\<rparr>) desired);
                 r = run_plan c zid t rest (snd (change_resource_record_sets c p zid b))
             in (b # fst r, snd r))
          else run_plan c zid t rest p)"

subsection \<open>Reading a decimal rendering back\<close>

definition undecimal :: "string \<Rightarrow> nat" where
  "undecimal s = foldl (\<lambda>acc ch. 10 * acc + (of_char ch - 48)) 0 s"

section \<open>Reference collaborators\<close>

text \<open>
  Concrete collaborators on which the theorems below are instantiated. The provider
  keeps a table of record sets (name, TTL, values); listing is a range scan from the
  start name onward, as Route53's is; an UPSERT replaces the record set of its name.
\<close>

type_synonym zone_table = "(string \<times> int \<times> string list) list"

definition table_record_set :: "string \<times> int \<times> string list \<Rightarrow> record_set" where
  "table_record_set e =
     \<lparr>Name = Some (fst e),
      ResourceRecords = Some (map (\<lambda>v. \<lparr>Value = Some v\<rparr>) (snd (snd e)))\<rparr>"

definition table_list ::
  "zone_table \<Rightarrow> string option \<Rightarrow> string \<Rightarrow> string \<Rightarrow> py_error + rrsets_response" where
  "table_list tab zid start ty =
     Inr \<lparr>ResourceRecordSets =
            Some (map table_record_set (filter (\<lambda>e. start \<le> fst e) tab))\<rparr>"

definition table_apply :: "zone_table \<Rightarrow> change \<Rightarrow> zone_table" where
  "table_apply tab ch =
     (let s = ResourceRecordSet ch
      in (rrs_Name s, rrs_TTL s, concat (map (\<lambda>r. case Value r of None \<Rightarrow> [] | Some v \<Rightarrow> [v])
                                    (rrs_ResourceRecords s)))
         # filter (\<lambda>e. fst e \<noteq> rrs_Name s) tab)"

definition table_client :: "zone_table client" where
  "table_client =
     \<lparr>list_hosted_zones_by_name =
        (\<lambda>z. Inr \<lparr>HostedZones = Some [\<lparr>zone_Id = Some ''Z1''\<rparr>]\<rparr>),
      list_resource_record_sets = table_list,
      change_resource_record_sets =
        (\<lambda>tab zid batch. (None, foldl table_apply tab (Changes batch)))\<rparr>"

text \<open>The same provider, refusing every change.\<close>

definition refusing_client :: "zone_table client" where
  "refusing_client =
     table_client\<lparr>change_resource_record_sets :=
        (\<lambda>tab zid batch. (Some (ProviderError ''AccessDenied''), tab))\<rparr>"

text \<open>Exhibitor answering with a fixed server list, and three ways for it to fail.\<close>

definition static_http :: "string list \<Rightarrow> http" where
  "static_http servers =
     \<lparr>http_get = (\<lambda>url headers. Inr \<lparr>json = Inr [''servers'' \<mapsto> servers]\<rparr>)\<rparr>"

definition failing_http :: http where
  "failing_http = \<lparr>http_get = (\<lambda>url headers. Inl (HTTPError ''connection refused''))\<rparr>"

definition garbled_http :: http where
  "garbled_http = \<lparr>http_get = (\<lambda>url headers. Inr \<lparr>json = Inl JSONDecodeError\<rparr>)\<rparr>"

definition empty_doc_http :: http where
  "empty_doc_http = \<lparr>http_get = (\<lambda>url headers. Inr \<lparr>json = Inr Map.empty\<rparr>)\<rparr>"

text \<open>Arguments, member lists and provider states of the examples.\<close>

definition example_args :: "string \<Rightarrow> args" where
  "example_args r =
     \<lparr>zone = ''example.com'', rr = r, exhibitor_url = ''http://exhibitor/'',
      ttl = 300, verbosity = 20\<rparr>"

definition two_members :: "string list" where
  "two_members = [''10.0.0.2'', ''10.0.0.1'']"

definition world0 :: "zone_table \<Rightarrow> zone_table world" where
  "world0 tab = \<lparr>provider = tab, trace = []\<rparr>"

definition example_table :: zone_table where
  "example_table =
     [(''zk01.example.com.'', 300, [''10.0.0.2'', ''10.0.0.1'']),
      (''zk10.example.com.'', 300, [''10.0.0.10''])]"

definition mixed_table :: zone_table where
  "mixed_table =
     [(''zk01.example.com.'', 300, [''10.0.0.1'']),
      (''zk02.example.com.'', 300, [''10.0.0.9''])]"

definition stale_table :: zone_table where
  "stale_table = [(''zk.example.com.'', 300, [''10.0.0.1''])]"

definition one_record :: "string list \<Rightarrow> zone_table world" where
  "one_record vs = world0 [(''zk.example.com.'', 300, vs)]"

definition after_first_run :: "string \<Rightarrow> zone_table world" where
  "after_first_run r =
     snd (main table_client (static_http two_members) (example_args r) (world0 []))"

section \<open>Basic facts\<close>

lemma change_calls_append [simp]: "change_calls (xs @ ys) = change_calls xs @ change_calls ys"
  by (induction xs rule: change_calls.induct) simp_all

lemma list_calls_append [simp]: "list_calls (xs @ ys) = list_calls xs @ list_calls ys"
  by (induction xs rule: list_calls.induct) simp_all

lemma target_lines_append [simp]: "target_lines (xs @ ys) = target_lines xs @ target_lines ys"
  by (induction xs rule: target_lines.induct) simp_all

lemma collect_records_eq: "collect_records rs acc = acc @ List.map_filter Value rs"
  by (induction rs arbitrary: acc) (auto simp: map_filter_simps split: option.splits)

lemma collect_record_sets_eq:
  "collect_record_sets t ss acc =
     acc @ concat (map record_set_values (filter (\<lambda>s. record_set_name s = t) ss))"
  by (induction ss arbitrary: acc) (auto simp: collect_records_eq record_set_values_def)

lemma existing_of_response_eq:
  "existing_of_response t res = sort (matching_values t res)"
  by (simp add: existing_of_response_def matching_values_def collect_record_sets_eq)

lemma upsert_record_empty: "upsert_record c zid f [] t w = (Inr (), w)"
  by (simp add: upsert_record_def upsert_try_def)

lemma upsert_record_nonempty:
  "ip_list \<noteq> [] \<Longrightarrow>
   upsert_record c zid f ip_list t w =
     (let batch = upsert_change f t (map (\<lambda>v. \<lparr>Value = Some v\<rparr>) ip_list);
          w1 = emit (ChangeCall zid batch) w;
          r = change_resource_record_sets c (provider w) zid batch
      in (Inr (), case fst r of None \<Rightarrow> w1\<lparr>provider := snd r\<rparr>
                  | Some e \<Rightarrow> logging_info (LoggedException e) (w1\<lparr>provider := snd r\<rparr>)))"
  by (auto simp: upsert_record_def upsert_try_def Let_def emit_def split: prod.splits option.splits)

lemma upsert_record_ok: "fst (upsert_record c zid f ip_list t w) = Inr ()"
  by (cases "ip_list = []") (simp_all add: upsert_record_empty upsert_record_nonempty Let_def)

lemma upsert_record_changes:
  "change_calls (trace (snd (upsert_record c zid f ip_list t w))) =
     change_calls (trace w) @
       (if ip_list = [] then []
        else [upsert_change f t (map (\<lambda>v. \<lparr>Value = Some v\<rparr>) ip_list)])"
  by (cases "ip_list = []")
     (simp_all add: upsert_record_empty upsert_record_nonempty Let_def emit_def logging_info_def
        split: option.splits)

section \<open>The DNS reader\<close>

text \<open>
  C2. Whatever the provider's list response is, the reader returns the values of
  exactly those record sets whose name is the queried name, sorted ascending; record
  sets of any other name that the range scan returns are left out, and when no record
  set carries the name the result is the empty list, not an error.
\<close>

theorem fetch_existing_returns_sorted_exact_matches:
  assumes "list_resource_record_sets c (provider w) zid target_fqdn ''A'' = Inr res"
  shows "fst (fetch_existing_resource_records c zid target_fqdn w)
           = Inr (sort (matching_values target_fqdn res))
       \<and> (filter (\<lambda>s. record_set_name s = target_fqdn)
             (case ResourceRecordSets res of None \<Rightarrow> [] | Some ss \<Rightarrow> ss) = []
            \<longrightarrow> fst (fetch_existing_resource_records c zid target_fqdn w) = Inr [])"
  using assms
  by (simp add: fetch_existing_resource_records_def Let_def emit_def existing_of_response_eq
      matching_values_def)

text \<open>
  On a table holding \<open>zk01\<close> and \<open>zk10\<close>, the scan from \<open>zk01\<close> returns both record
  sets and the reader keeps the values of \<open>zk01\<close> alone; the scan from \<open>zk05\<close> returns
  \<open>zk10\<close> only and the reader returns the empty list.
\<close>

theorem fetch_existing_returns_sorted_exact_matches_witness:
  "list_resource_record_sets table_client (provider (world0 example_table)) (Some ''Z1'')
       ''zk01.example.com.'' ''A''
     = Inr \<lparr>ResourceRecordSets = Some (map table_record_set example_table)\<rparr>
   \<and> fst (fetch_existing_resource_records table_client (Some ''Z1'') ''zk01.example.com.''
            (world0 example_table))
     = Inr [''10.0.0.1'', ''10.0.0.2'']
   \<and> list_resource_record_sets table_client (provider (world0 example_table)) (Some ''Z1'')
       ''zk05.example.com.'' ''A''
     = Inr \<lparr>ResourceRecordSets = Some (map table_record_set (tl example_table))\<rparr>
   \<and> fst (fetch_existing_resource_records table_client (Some ''Z1'') ''zk05.example.com.''
            (world0 example_table))
     = Inr []"
proof -
  have l1: "list_resource_record_sets table_client (provider (world0 example_table))
              (Some ''Z1'') ''zk01.example.com.'' ''A''
            = Inr \<lparr>ResourceRecordSets = Some (map table_record_set example_table)\<rparr>"
    by code_simp
  have s1: "sort (matching_values ''zk01.example.com.''
              \<lparr>ResourceRecordSets = Some (map table_record_set example_table)\<rparr>)
            = [''10.0.0.1'', ''10.0.0.2'']"
    by code_simp
  have l2: "list_resource_record_sets table_client (provider (world0 example_table))
              (Some ''Z1'') ''zk05.example.com.'' ''A''
            = Inr \<lparr>ResourceRecordSets = Some (map table_record_set (tl example_table))\<rparr>"
    by code_simp
  have s2: "filter (\<lambda>s. record_set_name s = ''zk05.example.com.'')
              (case ResourceRecordSets
                      \<lparr>ResourceRecordSets = Some (map table_record_set (tl example_table))\<rparr>
               of None \<Rightarrow> [] | Some ss \<Rightarrow> ss) = []"
    by code_simp
  have s3: "sort (matching_values ''zk05.example.com.''
              \<lparr>ResourceRecordSets = Some (map table_record_set (tl example_table))\<rparr>)
            = []"
    by code_simp
  from fetch_existing_returns_sorted_exact_matches [OF l1] s1
    fetch_existing_returns_sorted_exact_matches [OF l2] s2 s3 l1 l2
  show ?thesis by simp
qed

section \<open>Traces of the single steps\<close>

lemma get_zk_servers_fst:
  "fst (get_zk_servers h u w) = fst (get_zk_servers h u w')"
  by (simp add: get_zk_servers_def Let_def split: sum.splits option.splits)

lemma get_zk_servers_snd:
  "snd (get_zk_servers h u w) =
     emit (HttpGet (rstrip (CHR ''/'') u @ ''/exhibitor/v1/cluster/list'')
             [(''accept'', ''application/json'')]) w"
  by (simp add: get_zk_servers_def Let_def split: sum.splits option.splits)

lemma fetch_snd:
  "snd (fetch_existing_resource_records c zid f w) = emit (ListCall zid f ''A'') w"
  by (simp add: fetch_existing_resource_records_def Let_def split: sum.splits)

lemma fetch_fst:
  "fst (fetch_existing_resource_records c zid f w) =
     (case list_resource_record_sets c (provider w) zid f ''A'' of
        Inl e \<Rightarrow> Inl e | Inr res \<Rightarrow> Inr (existing_of_response f res))"
  by (simp add: fetch_existing_resource_records_def Let_def emit_def split: sum.splits)

lemma resolve_zone_snd: "snd (resolve_zone c z w) = emit (ZoneLookup z) w"
  by (simp add: resolve_zone_def Let_def split: sum.splits option.splits list.splits)

lemma reconcile_ok: "fst (reconcile c zid f desired t creating existing w) = Inr ()"
  by (simp add: reconcile_def Let_def upsert_record_ok)

lemma upsert_record_list_calls:
  "list_calls (trace (snd (upsert_record c zid f ip_list t w))) = list_calls (trace w)"
  by (cases "ip_list = []")
     (simp_all add: upsert_record_empty upsert_record_nonempty Let_def emit_def logging_info_def
        split: option.splits)

lemma upsert_record_target_lines:
  "target_lines (trace (snd (upsert_record c zid f ip_list t w))) = target_lines (trace w)"
  by (cases "ip_list = []")
     (simp_all add: upsert_record_empty upsert_record_nonempty Let_def emit_def logging_info_def
        split: option.splits)

lemma reconcile_list_calls:
  "list_calls (trace (snd (reconcile c zid f desired t creating existing w)))
     = list_calls (trace w)"
  by (cases creating)
     (simp_all add: reconcile_def Let_def upsert_record_list_calls logging_info_def emit_def)

lemma reconcile_target_lines:
  "target_lines (trace (snd (reconcile c zid f desired t CreatingNew existing w)))
     = target_lines (trace w)
   \<and> target_lines (trace (snd (reconcile c zid f desired t (CreatingNewNamed n) existing w)))
     = target_lines (trace w)"
  by (simp add: reconcile_def Let_def upsert_record_target_lines logging_info_def emit_def)

lemma reconcile_changes:
  "change_calls (trace (snd (reconcile c zid f desired t creating existing w))) =
     change_calls (trace w) @
       (if needs_upsert desired existing
        then [upsert_change f t (map (\<lambda>v. \<lparr>Value = Some v\<rparr>) desired)] else [])"
  by (simp add: reconcile_def Let_def upsert_record_changes logging_info_def emit_def
      needs_upsert_def)

section \<open>The name of the aggregate record\<close>

text \<open>
  C5, as stated: for every record name argument and zone name, the aggregate FQDN is
  the argument itself when it ends in a dot and otherwise the argument, a dot, the zone
  name and a dot. On the empty argument the code raises instead of returning
  \<open>''.prod.example.com.''\<close>.
\<close>

theorem aggregate_fqdn_empty_counterexample:
  "aggregate_fqdn '''' ''prod.example.com'' = Inl IndexError
   \<and> aggregate_fqdn '''' ''prod.example.com''
       \<noteq> Inr (if suffix ''.'' '''' then '''' else '''' @ ''.'' @ ''prod.example.com'' @ ''.'')"
  by (simp add: aggregate_fqdn_def)

text \<open>
  C5, amended: for every non-empty record name argument and every zone name, the
  aggregate FQDN is the argument itself when it ends in a dot and otherwise the
  argument, a dot, the zone name and a dot.
\<close>

theorem aggregate_fqdn_nonempty:
  assumes "r \<noteq> []"
  shows "aggregate_fqdn r z = Inr (if suffix ''.'' r then r else r @ ''.'' @ z @ ''.'')"
  using assms by (cases r rule: rev_cases) (auto simp: aggregate_fqdn_def suffix_def)

theorem aggregate_fqdn_nonempty_witness:
  "''zk'' \<noteq> []
   \<and> aggregate_fqdn ''zk'' ''prod.example.com'' = Inr ''zk.prod.example.com.''
   \<and> aggregate_fqdn ''custom.example.com.'' ''prod.example.com'' = Inr ''custom.example.com.''"
  using aggregate_fqdn_nonempty [of "''zk''" "''prod.example.com''"]
    aggregate_fqdn_nonempty [of "''custom.example.com.''" "''prod.example.com''"]
  by (simp add: suffix_def)

section \<open>The empty record name\<close>

text \<open>
  C9, as stated: with an empty \<^verbatim>\<open>--rr\<close> the run aborts on the indexing error before
  any DNS or ensemble operation completes. The zone lookup, a request to the DNS
  provider, comes first in \<^verbatim>\<open>main\<close> and has completed when the error is raised.
\<close>

theorem empty_rr_zone_lookup_counterexample:
  "main table_client (static_http [''10.0.0.1'']) (example_args '''') (world0 [])
     = (Inl IndexError, \<lparr>provider = [], trace = [ZoneLookup ''example.com'']\<rparr>)
   \<and> trace (snd (main table_client (static_http [''10.0.0.1'']) (example_args '''')
                   (world0 [])))
     \<noteq> trace (world0 [])"
  by (simp add: main_def resolve_zone_def table_client_def example_args_def world0_def
      emit_def aggregate_fqdn_def)

text \<open>
  C9, amended: with an empty \<^verbatim>\<open>--rr\<close> the run aborts, and the only request it has
  made is the zone lookup: it makes no request to Exhibitor and reads or writes no
  record. When the zone lookup succeeds the error is the indexing error of the
  trailing-dot check. The FQDN computation returns a name exactly for the non-empty
  record names.
\<close>

theorem empty_rr_aborts_after_zone_lookup:
  assumes "rr a = []"
  shows "(\<exists>e. main c h a w = (Inl e, emit (ZoneLookup (zone a)) w))
       \<and> (list_hosted_zones_by_name c (zone a) = Inr resp \<and> HostedZones resp = Some (hz # hzs)
            \<longrightarrow> main c h a w = (Inl IndexError, emit (ZoneLookup (zone a)) w))
       \<and> ((\<exists>f. aggregate_fqdn r z = Inr f) \<longleftrightarrow> r \<noteq> [])"
  using assms
  by (auto simp: main_def resolve_zone_def aggregate_fqdn_def Let_def
      split: sum.splits option.splits list.splits prod.splits)

theorem empty_rr_aborts_after_zone_lookup_witness:
  "rr (example_args '''') = []
   \<and> list_hosted_zones_by_name table_client (zone (example_args ''''))
        = Inr \<lparr>HostedZones = Some [\<lparr>zone_Id = Some ''Z1''\<rparr>]\<rparr>
   \<and> main table_client (static_http [''10.0.0.1'']) (example_args '''') (world0 [])
        = (Inl IndexError, \<lparr>provider = [], trace = [ZoneLookup ''example.com'']\<rparr>)"
proof -
  have a: "rr (example_args '''') = []"
    by (simp add: example_args_def)
  have b: "list_hosted_zones_by_name table_client (zone (example_args ''''))
             = Inr \<lparr>HostedZones = Some [\<lparr>zone_Id = Some ''Z1''\<rparr>]\<rparr>"
    by (simp add: table_client_def)
  have c: "emit (ZoneLookup (zone (example_args ''''))) (world0 [])
             = \<lparr>provider = ([]::zone_table), trace = [ZoneLookup ''example.com'']\<rparr>"
    by (simp add: emit_def example_args_def world0_def)
  from empty_rr_aborts_after_zone_lookup
         [OF a, of table_client "static_http [''10.0.0.1'']" "world0 []"
            "\<lparr>HostedZones = Some [\<lparr>zone_Id = Some ''Z1''\<rparr>]\<rparr>" "\<lparr>zone_Id = Some ''Z1''\<rparr>" "[]"]
    a b c
  show ?thesis by simp
qed

section \<open>The DNS writer\<close>

text \<open>
  C6. Called with an empty value list the writer makes no provider call: it returns
  with the world as it was. Called with a non-empty list it submits exactly one change
  batch, a single UPSERT of the A record carrying that value list and the given TTL.
\<close>

theorem upsert_record_empty_noop_nonempty_one_upsert:
  "upsert_record c zid f [] t w = (Inr (), w)
   \<and> (ip_list \<noteq> [] \<longrightarrow>
        change_calls (trace (snd (upsert_record c zid f ip_list t w))) =
          change_calls (trace w) @
            [\<lparr>Changes =
                [\<lparr>Action = ''UPSERT'',
                  ResourceRecordSet =
                    \<lparr>rrs_Name = f, rrs_Type = ''A'', rrs_TTL = t,
                     rrs_ResourceRecords = map (\<lambda>v. \<lparr>Value = Some v\<rparr>) ip_list\<rparr>\<rparr>]\<rparr>])"
  by (simp add: upsert_record_empty upsert_record_changes upsert_change_def)

theorem upsert_record_empty_noop_nonempty_one_upsert_witness:
  "[''10.0.0.1'', ''10.0.0.2''] \<noteq> []
   \<and> change_calls (trace (snd (upsert_record table_client (Some ''Z1'') ''zk.example.com.''
                                  [''10.0.0.1'', ''10.0.0.2''] 300 (world0 [])))) =
       [\<lparr>Changes =
           [\<lparr>Action = ''UPSERT'',
             ResourceRecordSet =
               \<lparr>rrs_Name = ''zk.example.com.'', rrs_Type = ''A'', rrs_TTL = 300,
                rrs_ResourceRecords =
                  [\<lparr>Value = Some ''10.0.0.1''\<rparr>, \<lparr>Value = Some ''10.0.0.2''\<rparr>]\<rparr>\<rparr>]\<rparr>]"
  using upsert_record_empty_noop_nonempty_one_upsert
          [of table_client "Some ''Z1''" "''zk.example.com.''" 300 "world0 []"
             "[''10.0.0.1'', ''10.0.0.2'']"]
  by (simp add: world0_def)

section \<open>The reconciler\<close>

text \<open>
  C1. For every record name: when the existing value list is empty the creation line is
  logged and the writer is called with the desired values; when it is non-empty and the
  sorted desired and existing lists are equal as sequences, "up to date" is logged and
  the writer is not called; when it is non-empty and the sorted lists differ, the update
  line is logged and the writer is called with the desired values.
\<close>

theorem reconcile_decision:
  "(existing = [] \<longrightarrow>
      reconcile c zid f desired t creating existing w =
        upsert_record c zid f desired t (logging_info creating w))
   \<and> (existing \<noteq> [] \<and> sort desired = sort existing \<longrightarrow>
      reconcile c zid f desired t creating existing w =
        (Inr (), logging_info UpToDate (logging_info (ExistingRecord existing) w)))
   \<and> (existing \<noteq> [] \<and> sort desired \<noteq> sort existing \<longrightarrow>
      reconcile c zid f desired t creating existing w =
        upsert_record c zid f desired t
          (logging_info UpdatingRecord (logging_info (ExistingRecord existing) w)))"
  by (simp add: reconcile_def Let_def)

theorem reconcile_decision_witness:
  "reconcile table_client (Some ''Z1'') ''zk.example.com.'' [''1.1.1.1''] 300 CreatingNew []
     (world0 [])
   = (Inr (),
      \<lparr>provider = [(''zk.example.com.'', 300, [''1.1.1.1''])],
       trace = [Log CreatingNew,
                ChangeCall (Some ''Z1'')
                  (upsert_change ''zk.example.com.'' 300 [\<lparr>Value = Some ''1.1.1.1''\<rparr>])]\<rparr>)
   \<and> reconcile table_client (Some ''Z1'') ''zk.example.com.'' [''1.1.1.1''] 300 CreatingNew
       [''1.1.1.1''] (one_record [''1.1.1.1''])
   = (Inr (),
      \<lparr>provider = [(''zk.example.com.'', 300, [''1.1.1.1''])],
       trace = [Log (ExistingRecord [''1.1.1.1'']), Log UpToDate]\<rparr>)
   \<and> reconcile table_client (Some ''Z1'') ''zk.example.com.'' [''1.1.1.1''] 300 CreatingNew
       [''2.2.2.2''] (one_record [''2.2.2.2''])
   = (Inr (),
      \<lparr>provider = [(''zk.example.com.'', 300, [''1.1.1.1''])],
       trace = [Log (ExistingRecord [''2.2.2.2'']), Log UpdatingRecord,
                ChangeCall (Some ''Z1'')
                  (upsert_change ''zk.example.com.'' 300 [\<lparr>Value = Some ''1.1.1.1''\<rparr>])]\<rparr>)
   \<and> reconcile table_client (Some ''Z1'') ''zk.example.com.'' [''1.1.1.1''] 300 CreatingNew
       [''1.1.1.1'', ''1.1.1.1''] (one_record [''1.1.1.1'', ''1.1.1.1''])
   = (Inr (),
      \<lparr>provider = [(''zk.example.com.'', 300, [''1.1.1.1''])],
       trace = [Log (ExistingRecord [''1.1.1.1'', ''1.1.1.1'']), Log UpdatingRecord,
                ChangeCall (Some ''Z1'')
                  (upsert_change ''zk.example.com.'' 300 [\<lparr>Value = Some ''1.1.1.1''\<rparr>])]\<rparr>)"
proof -
  have u1: "upsert_record table_client (Some ''Z1'') ''zk.example.com.'' [''1.1.1.1''] 300
              (logging_info CreatingNew (world0 []))
     = (Inr (),
      \<lparr>provider = [(''zk.example.com.'', 300, [''1.1.1.1''])],
       trace = [Log CreatingNew,
                ChangeCall (Some ''Z1'')
                  (upsert_change ''zk.example.com.'' 300 [\<lparr>Value = Some ''1.1.1.1''\<rparr>])]\<rparr>)"
    by code_simp
  have u2: "logging_info UpToDate (logging_info (ExistingRecord [''1.1.1.1''])
              (one_record [''1.1.1.1'']))
     = \<lparr>provider = [(''zk.example.com.'', 300, [''1.1.1.1''])],
       trace = [Log (ExistingRecord [''1.1.1.1'']), Log UpToDate]\<rparr>"
    by code_simp
  have u3: "upsert_record table_client (Some ''Z1'') ''zk.example.com.'' [''1.1.1.1''] 300
              (logging_info UpdatingRecord (logging_info (ExistingRecord [''2.2.2.2''])
                 (one_record [''2.2.2.2''])))
     = (Inr (),
      \<lparr>provider = [(''zk.example.com.'', 300, [''1.1.1.1''])],
       trace = [Log (ExistingRecord [''2.2.2.2'']), Log UpdatingRecord,
                ChangeCall (Some ''Z1'')
                  (upsert_change ''zk.example.com.'' 300 [\<lparr>Value = Some ''1.1.1.1''\<rparr>])]\<rparr>)"
    by code_simp
  have u4: "upsert_record table_client (Some ''Z1'') ''zk.example.com.'' [''1.1.1.1''] 300
              (logging_info UpdatingRecord
                 (logging_info (ExistingRecord [''1.1.1.1'', ''1.1.1.1''])
                 (one_record [''1.1.1.1'', ''1.1.1.1''])))
     = (Inr (),
      \<lparr>provider = [(''zk.example.com.'', 300, [''1.1.1.1''])],
       trace = [Log (ExistingRecord [''1.1.1.1'', ''1.1.1.1'']), Log UpdatingRecord,
                ChangeCall (Some ''Z1'')
                  (upsert_change ''zk.example.com.'' 300 [\<lparr>Value = Some ''1.1.1.1''\<rparr>])]\<rparr>)"
    by code_simp
  have s3: "sort [''1.1.1.1''] \<noteq> sort [''2.2.2.2'']" by simp
  have s4: "sort [''1.1.1.1''] \<noteq> sort [''1.1.1.1'', ''1.1.1.1'']" by simp
  from reconcile_decision [of "[]" table_client "Some ''Z1''" "''zk.example.com.''"
          "[''1.1.1.1'']" 300 CreatingNew "world0 []"]
    reconcile_decision [of "[''1.1.1.1'']" table_client "Some ''Z1''" "''zk.example.com.''"
          "[''1.1.1.1'']" 300 CreatingNew "one_record [''1.1.1.1'']"]
    reconcile_decision [of "[''2.2.2.2'']" table_client "Some ''Z1''" "''zk.example.com.''"
          "[''1.1.1.1'']" 300 CreatingNew "one_record [''2.2.2.2'']"]
    reconcile_decision [of "[''1.1.1.1'', ''1.1.1.1'']" table_client "Some ''Z1''" "''zk.example.com.''"
          "[''1.1.1.1'']" 300 CreatingNew "one_record [''1.1.1.1'', ''1.1.1.1'']"]
    u1 u2 u3 u4 s3 s4
  show ?thesis by simp
qed

section \<open>The ensemble reader\<close>

lemma aggregate_fqdn_total: "r \<noteq> [] \<Longrightarrow> \<exists>f. aggregate_fqdn r z = Inr f"
  by (cases "last r = CHR ''.''") (simp_all add: aggregate_fqdn_def)

text \<open>
  C3. When the endpoint's response has a \<^verbatim>\<open>servers\<close> field, the reader returns that
  list sorted ascending in the lexicographic order of the strings (a sorted permutation
  of it). When the request fails, the body is not JSON, or the field is missing, the
  reader raises; \<^verbatim>\<open>main\<close> does not catch it: the run ends with that error, having
  read and written no record.
\<close>

theorem get_zk_servers_sorted_or_aborts:
  "(http_get h (rstrip (CHR ''/'') u @ ''/exhibitor/v1/cluster/list'')
        [(''accept'', ''application/json'')] = Inr resp
      \<and> json resp = Inr doc \<and> doc ''servers'' = Some servers
    \<longrightarrow> fst (get_zk_servers h u w) = Inr (sort servers)
        \<and> sorted (sort servers) \<and> mset (sort servers) = mset servers)
   \<and> (http_get h (rstrip (CHR ''/'') u @ ''/exhibitor/v1/cluster/list'')
        [(''accept'', ''application/json'')] = Inl e
    \<longrightarrow> fst (get_zk_servers h u w) = Inl e)
   \<and> (http_get h (rstrip (CHR ''/'') u @ ''/exhibitor/v1/cluster/list'')
        [(''accept'', ''application/json'')] = Inr resp
      \<and> json resp = Inl e
    \<longrightarrow> fst (get_zk_servers h u w) = Inl e)
   \<and> (http_get h (rstrip (CHR ''/'') u @ ''/exhibitor/v1/cluster/list'')
        [(''accept'', ''application/json'')] = Inr resp
      \<and> json resp = Inr doc \<and> doc ''servers'' = None
    \<longrightarrow> fst (get_zk_servers h u w) = Inl KeyError)
   \<and> (list_hosted_zones_by_name c (zone a) = Inr zresp \<and> HostedZones zresp = Some (hz # hzs)
      \<and> rr a \<noteq> [] \<and> fst (get_zk_servers h (exhibitor_url a) w) = Inl e
    \<longrightarrow> fst (main c h a w) = Inl e
        \<and> list_calls (trace (snd (main c h a w))) = list_calls (trace w)
        \<and> change_calls (trace (snd (main c h a w))) = change_calls (trace w))"
proof -
  have "fst (main c h a w) = Inl e
        \<and> list_calls (trace (snd (main c h a w))) = list_calls (trace w)
        \<and> change_calls (trace (snd (main c h a w))) = change_calls (trace w)"
    if z: "list_hosted_zones_by_name c (zone a) = Inr zresp" "HostedZones zresp = Some (hz # hzs)"
      and r: "rr a \<noteq> []" and g: "fst (get_zk_servers h (exhibitor_url a) w) = Inl e"
  proof -
    from z have rz: "resolve_zone c (zone a) w = (Inr (zone_Id hz), emit (ZoneLookup (zone a)) w)"
      by (simp add: resolve_zone_def Let_def)
    from r obtain f where f: "aggregate_fqdn (rr a) (zone a) = Inr f"
      using aggregate_fqdn_total by blast
    let ?w1 = "logging_info (Managing f) (emit (ZoneLookup (zone a)) w)"
    from g have g': "fst (get_zk_servers h (exhibitor_url a) ?w1) = Inl e"
      using get_zk_servers_fst [of h "exhibitor_url a" ?w1 w] by simp
    from g' obtain w2 where gz: "get_zk_servers h (exhibitor_url a) ?w1 = (Inl e, w2)"
      by (cases "get_zk_servers h (exhibitor_url a) ?w1") simp
    have m: "main c h a w = (Inl e, snd (get_zk_servers h (exhibitor_url a) ?w1))"
      by (simp add: main_def rz f gz)
    show ?thesis
      by (simp add: m get_zk_servers_snd emit_def logging_info_def)
  qed
  then show ?thesis
    by (auto simp: get_zk_servers_def Let_def)
qed

text \<open>
  Instances: a response listing three servers, a refused connection, a body that is
  not JSON, a document without \<^verbatim>\<open>servers\<close>, and a whole run against the refused
  connection.
\<close>

theorem get_zk_servers_sorted_or_aborts_witness:
  "fst (get_zk_servers (static_http [''10.0.0.2'', ''10.0.0.10'', ''10.0.0.1'']) ''http://exhibitor/'' (world0 []))
     = Inr [''10.0.0.1'', ''10.0.0.10'', ''10.0.0.2'']
   \<and> fst (get_zk_servers failing_http ''http://exhibitor/'' (world0 [])) = Inl (HTTPError ''connection refused'')
   \<and> fst (get_zk_servers garbled_http ''http://exhibitor/'' (world0 [])) = Inl JSONDecodeError
   \<and> fst (get_zk_servers empty_doc_http ''http://exhibitor/'' (world0 [])) = Inl KeyError
   \<and> fst (main table_client failing_http (example_args ''zk'') (world0 [])) = Inl (HTTPError ''connection refused'')
   \<and> list_calls (trace (snd (main table_client failing_http (example_args ''zk'') (world0 [])))) = []
   \<and> change_calls (trace (snd (main table_client failing_http (example_args ''zk'') (world0 [])))) = []"
proof -
  let ?u = "''http://exhibitor/''"
  let ?url = "rstrip (CHR ''/'') ?u @ ''/exhibitor/v1/cluster/list''"
  let ?hd = "[(''accept'', ''application/json'')]"
  let ?s = "[''10.0.0.2'', ''10.0.0.10'', ''10.0.0.1'']"
  have s: "sort ?s = [''10.0.0.1'', ''10.0.0.10'', ''10.0.0.2'']" by code_simp
  have 1: "http_get (static_http ?s) ?url ?hd = Inr \<lparr>json = Inr [''servers'' \<mapsto> ?s]\<rparr>
     \<and> json \<lparr>json = Inr [''servers'' \<mapsto> ?s]\<rparr> = Inr [''servers'' \<mapsto> ?s]
     \<and> [''servers'' \<mapsto> ?s] ''servers'' = Some ?s"
    by (simp add: static_http_def)
  have 2: "http_get failing_http ?url ?hd = Inl (HTTPError ''connection refused'')"
    by (simp add: failing_http_def)
  have 3: "http_get garbled_http ?url ?hd = Inr \<lparr>json = Inl JSONDecodeError\<rparr>
     \<and> json \<lparr>json = Inl JSONDecodeError\<rparr> = Inl JSONDecodeError"
    by (simp add: garbled_http_def)
  have 4: "http_get empty_doc_http ?url ?hd = Inr \<lparr>json = Inr Map.empty\<rparr>
     \<and> json \<lparr>json = Inr Map.empty\<rparr> = Inr Map.empty \<and> Map.empty ''servers'' = None"
    by (simp add: empty_doc_http_def)
  have 5: "list_hosted_zones_by_name table_client (zone (example_args ''zk''))
             = Inr \<lparr>HostedZones = Some [\<lparr>zone_Id = Some ''Z1''\<rparr>]\<rparr>
      \<and> HostedZones \<lparr>HostedZones = Some [\<lparr>zone_Id = Some ''Z1''\<rparr>]\<rparr> = Some [\<lparr>zone_Id = Some ''Z1''\<rparr>]
      \<and> rr (example_args ''zk'') \<noteq> []
      \<and> exhibitor_url (example_args ''zk'') = ?u"
    by (simp add: table_client_def example_args_def)
  note t = get_zk_servers_sorted_or_aborts
  have a: "fst (get_zk_servers (static_http ?s) ?u (world0 [])) = Inr (sort ?s)"
    using t [where h = "static_http ?s" and u = ?u and resp = "\<lparr>json = Inr [''servers'' \<mapsto> ?s]\<rparr>"
        and doc = "[''servers'' \<mapsto> ?s]" and servers = ?s and w = "world0 []"] 1
    by blast
  have b: "fst (get_zk_servers failing_http ?u (world0 ([]::zone_table))) = Inl (HTTPError ''connection refused'')"
    using t [where h = failing_http and u = ?u and e = "HTTPError ''connection refused''" and w = "world0 []"] 2
    by blast
  have c: "fst (get_zk_servers garbled_http ?u (world0 ([]::zone_table))) = Inl JSONDecodeError"
    using t [where h = garbled_http and u = ?u and e = JSONDecodeError and w = "world0 []"
        and resp = "\<lparr>json = Inl JSONDecodeError\<rparr>"] 3
    by blast
  have d: "fst (get_zk_servers empty_doc_http ?u (world0 ([]::zone_table))) = Inl KeyError"
    using t [where h = empty_doc_http and u = ?u and w = "world0 []"
        and resp = "\<lparr>json = Inr Map.empty\<rparr>" and doc = Map.empty] 4
    by blast
  have e: "fst (main table_client failing_http (example_args ''zk'') (world0 [])) = Inl (HTTPError ''connection refused'')
   \<and> list_calls (trace (snd (main table_client failing_http (example_args ''zk'') (world0 [])))) = list_calls (trace (world0 ([]::zone_table)))
   \<and> change_calls (trace (snd (main table_client failing_http (example_args ''zk'') (world0 [])))) = change_calls (trace (world0 ([]::zone_table)))"
    using t [where h = failing_http and c = table_client and a = "example_args ''zk''" and w = "world0 []"
        and e = "HTTPError ''connection refused''" and zresp = "\<lparr>HostedZones = Some [\<lparr>zone_Id = Some ''Z1''\<rparr>]\<rparr>"
        and hz = "\<lparr>zone_Id = Some ''Z1''\<rparr>" and hzs = "[]"] 5 b
    by simp
  from a b c d e s show ?thesis by (simp add: world0_def)
qed

section \<open>The loop over the members\<close>

lemma member_loop_trace:
  "member_loop c zid z t ps w = (Inr (), w') \<Longrightarrow>
     target_lines (trace w') =
       target_lines (trace w) @ map (\<lambda>(i, ip). (member_fqdn z (i + 1), ip)) ps
   \<and> list_calls (trace w') =
       list_calls (trace w) @ map (\<lambda>(i, ip). member_fqdn z (i + 1)) ps
   \<and> (\<exists>cs. change_calls (trace w') = change_calls (trace w) @ cs
          \<and> subseq cs (map (\<lambda>(i, ip). upsert_change (member_fqdn z (i + 1)) t
                                        [\<lparr>Value = Some ip\<rparr>]) ps))"
proof (induction ps arbitrary: w)
  case Nil
  then show ?case by simp
next
  case (Cons p ps)
  obtain i ip where p: "p = (i, ip)" by (cases p)
  let ?f = "member_fqdn z (i + 1)"
  let ?w1 = "logging_info (TargetIp ?f ip) w"
  let ?plan = "\<lambda>(i, ip). upsert_change (member_fqdn z (i + 1)) t [\<lparr>Value = Some ip\<rparr>]"
  from Cons.prems p obtain ex w2 where
    f: "fetch_existing_resource_records c zid ?f ?w1 = (Inr ex, w2)"
    by (auto simp: Let_def split: prod.splits sum.splits)
  let ?r = "reconcile c zid ?f [ip] t (CreatingNewNamed ?f) ex w2"
  from Cons.prems p f have rest: "member_loop c zid z t ps (snd ?r) = (Inr (), w')"
    by (auto simp: Let_def split: prod.splits sum.splits)
  have w2: "w2 = emit (ListCall zid ?f ''A'') ?w1"
    using fetch_snd [of c zid ?f ?w1] f by simp
  note ih = Cons.IH [OF rest]
  have a: "target_lines (trace (snd ?r)) = target_lines (trace w) @ [(?f, ip)]"
    by (simp add: reconcile_target_lines w2 emit_def logging_info_def)
  have b: "list_calls (trace (snd ?r)) = list_calls (trace w) @ [?f]"
    by (simp add: reconcile_list_calls w2 emit_def logging_info_def)
  have c: "change_calls (trace (snd ?r)) = change_calls (trace w) @
       (if needs_upsert [ip] ex then [upsert_change ?f t [\<lparr>Value = Some ip\<rparr>]] else [])"
    by (simp add: reconcile_changes w2 emit_def logging_info_def)
  from ih obtain cs where cs: "change_calls (trace w') = change_calls (trace (snd ?r)) @ cs"
    and sub: "subseq cs (map ?plan ps)"
    by blast
  have "target_lines (trace w') =
       target_lines (trace w) @ map (\<lambda>(i, ip). (member_fqdn z (i + 1), ip)) (p # ps)"
    using ih a p by simp
  moreover have "list_calls (trace w') =
       list_calls (trace w) @ map (\<lambda>(i, ip). member_fqdn z (i + 1)) (p # ps)"
    using ih b p by simp
  moreover have "\<exists>cs. change_calls (trace w') = change_calls (trace w) @ cs
          \<and> subseq cs (map ?plan (p # ps))"
  proof (cases "needs_upsert [ip] ex")
    case True
    with cs c have "change_calls (trace w') =
        change_calls (trace w) @ (upsert_change ?f t [\<lparr>Value = Some ip\<rparr>] # cs)"
      by simp
    moreover have "subseq (upsert_change ?f t [\<lparr>Value = Some ip\<rparr>] # cs) (map ?plan (p # ps))"
      using sub p by simp
    ultimately show ?thesis by blast
  next
    case False
    with cs c have "change_calls (trace w') = change_calls (trace w) @ cs" by simp
    moreover have "subseq cs (map ?plan (p # ps))"
      using sub p by (simp add: list_emb_Cons)
    ultimately show ?thesis by blast
  qed
  ultimately show ?case by blast
qed

section \<open>The trace of a completed run\<close>

lemma enumerate_map_nth:
  "map (\<lambda>(i, x). F i x) (enumerate n xs) = map (\<lambda>k. F (n + k) (xs ! k)) [0..<length xs]"
proof (induction xs arbitrary: n)
  case Nil
  then show ?case by simp
next
  case (Cons x xs)
  have "map (\<lambda>k. F (n + k) ((x # xs) ! k)) [0..<length (x # xs)]
      = F n x # map (\<lambda>k. F (n + Suc k) (xs ! k)) [0..<length xs]"
    by (simp add: upt_conv_Cons map_Suc_upt [symmetric] del: upt_Suc)
  with Cons.IH [of "Suc n"] show ?case by simp
qed

lemma main_success_trace:
  assumes "main c h a w = (Inr (), w')"
  shows "\<exists>agg members.
      aggregate_fqdn (rr a) (zone a) = Inr agg
    \<and> fst (get_zk_servers h (exhibitor_url a) w) = Inr members
    \<and> target_lines (trace w') =
        target_lines (trace w) @
          map (\<lambda>(i, ip). (member_fqdn (zone a) (i + 1), ip)) (enumerate 0 (sort members))
    \<and> list_calls (trace w') =
        list_calls (trace w) @
          agg # map (\<lambda>(i, ip). member_fqdn (zone a) (i + 1)) (enumerate 0 (sort members))
    \<and> (\<exists>cs. change_calls (trace w') = change_calls (trace w) @ cs
         \<and> subseq cs
             (upsert_change agg (ttl a) (map (\<lambda>v. \<lparr>Value = Some v\<rparr>) members)
              # map (\<lambda>(i, ip). upsert_change (member_fqdn (zone a) (i + 1)) (ttl a)
                                  [\<lparr>Value = Some ip\<rparr>])
                  (enumerate 0 (sort members))))"
proof -
  from assms obtain zid w1 where rz: "resolve_zone c (zone a) w = (Inr zid, w1)"
    by (auto simp: main_def split: prod.splits sum.splits)
  from assms rz obtain agg where ag: "aggregate_fqdn (rr a) (zone a) = Inr agg"
    by (auto simp: main_def split: prod.splits sum.splits)
  from assms rz ag obtain members w2 where
    gz: "get_zk_servers h (exhibitor_url a) (logging_info (Managing agg) w1) = (Inr members, w2)"
    by (auto simp: main_def split: prod.splits sum.splits)
  from assms rz ag gz obtain ex w3 where
    fe: "fetch_existing_resource_records c zid agg (logging_info (ExhibitorCluster members) w2)
           = (Inr ex, w3)"
    by (auto simp: main_def split: prod.splits sum.splits)
  let ?r = "reconcile c zid agg members (ttl a) CreatingNew ex w3"
  let ?ps = "enumerate 0 (sort members)"
  from assms rz ag gz fe obtain w5 where
    ml: "member_loop c zid (zone a) (ttl a) ?ps (snd ?r) = (Inr (), w5)"
    and w': "w' = logging_info Done w5"
    by (auto simp: main_def split: prod.splits sum.splits)
  have w1: "w1 = emit (ZoneLookup (zone a)) w"
    using resolve_zone_snd [of c "zone a" w] rz by simp
  have w2: "w2 = emit (HttpGet (rstrip (CHR ''/'') (exhibitor_url a) @ ''/exhibitor/v1/cluster/list'')
             [(''accept'', ''application/json'')]) (logging_info (Managing agg) w1)"
    using get_zk_servers_snd [of h "exhibitor_url a" "logging_info (Managing agg) w1"] gz by simp
  have w3: "w3 = emit (ListCall zid agg ''A'') (logging_info (ExhibitorCluster members) w2)"
    using fetch_snd [of c zid agg "logging_info (ExhibitorCluster members) w2"] fe by simp
  have m: "fst (get_zk_servers h (exhibitor_url a) w) = Inr members"
    using get_zk_servers_fst [of h "exhibitor_url a" w "logging_info (Managing agg) w1"] gz by simp
  have a3: "target_lines (trace w3) = target_lines (trace w)"
    and b3: "list_calls (trace w3) = list_calls (trace w) @ [agg]"
    and c3: "change_calls (trace w3) = change_calls (trace w)"
    by (simp_all add: w1 w2 w3 emit_def logging_info_def)
  note lp = member_loop_trace [OF ml]
  from lp obtain cs where cs: "change_calls (trace w5) = change_calls (trace (snd ?r)) @ cs"
    and sub: "subseq cs (map (\<lambda>(i, ip). upsert_change (member_fqdn (zone a) (i + 1)) (ttl a)
                                  [\<lparr>Value = Some ip\<rparr>]) ?ps)"
    by blast
  let ?agg = "upsert_change agg (ttl a) (map (\<lambda>v. \<lparr>Value = Some v\<rparr>) members)"
  let ?plan = "map (\<lambda>(i, ip). upsert_change (member_fqdn (zone a) (i + 1)) (ttl a)
                                  [\<lparr>Value = Some ip\<rparr>]) ?ps"
  have t: "target_lines (trace w') = target_lines (trace w) @
          map (\<lambda>(i, ip). (member_fqdn (zone a) (i + 1), ip)) ?ps"
    using lp by (simp add: w' logging_info_def emit_def reconcile_target_lines a3)
  have l: "list_calls (trace w') = list_calls (trace w) @
          agg # map (\<lambda>(i, ip). member_fqdn (zone a) (i + 1)) ?ps"
    using lp by (simp add: w' logging_info_def emit_def reconcile_list_calls b3)
  have ch: "change_calls (trace w') = change_calls (trace w) @
       (if needs_upsert members ex then [?agg] else []) @ cs"
    using cs by (simp add: w' logging_info_def emit_def reconcile_changes c3)
  have "subseq ((if needs_upsert members ex then [?agg] else []) @ cs) (?agg # ?plan)"
    using sub by (simp add: list_emb_Cons)
  with ch have "\<exists>cs. change_calls (trace w') = change_calls (trace w) @ cs
         \<and> subseq cs (?agg # ?plan)"
    by blast
  with ag m t l show ?thesis by blast
qed

section \<open>Every change is an UPSERT of at least one value\<close>

lemma only_adds_upserts_iff:
  "only_adds_upserts w w' \<longleftrightarrow>
     (\<exists>cs. change_calls (trace w') = change_calls (trace w) @ cs \<and> list_all nonempty_upsert cs)"
proof
  assume "only_adds_upserts w w'"
  then have "change_calls (trace w') = change_calls (trace w) @ drop (length (change_calls (trace w))) (change_calls (trace w'))
     \<and> list_all nonempty_upsert (drop (length (change_calls (trace w))) (change_calls (trace w')))"
    unfolding only_adds_upserts_def by (metis append_take_drop_id)
  then show "\<exists>cs. change_calls (trace w') = change_calls (trace w) @ cs \<and> list_all nonempty_upsert cs"
    by blast
next
  assume "\<exists>cs. change_calls (trace w') = change_calls (trace w) @ cs \<and> list_all nonempty_upsert cs"
  then show "only_adds_upserts w w'"
    unfolding only_adds_upserts_def by auto
qed

lemma only_adds_upserts_refl: "only_adds_upserts w w"
  by (simp add: only_adds_upserts_iff)

lemma only_adds_upserts_trans:
  "only_adds_upserts w w' \<Longrightarrow> only_adds_upserts w' w'' \<Longrightarrow> only_adds_upserts w w''"
  unfolding only_adds_upserts_iff by auto

lemma only_adds_upserts_same:
  "change_calls (trace w') = change_calls (trace w) \<Longrightarrow> only_adds_upserts w w'"
  by (simp add: only_adds_upserts_iff)

lemma nonempty_upsert_change: "rs \<noteq> [] \<Longrightarrow> nonempty_upsert (upsert_change f t rs)"
  by (simp add: nonempty_upsert_def upsert_change_def)

lemma reconcile_only_adds_upserts:
  "only_adds_upserts w (snd (reconcile c zid f desired t creating existing w))"
  by (simp add: only_adds_upserts_iff reconcile_changes needs_upsert_def nonempty_upsert_change)

lemma fetch_only_adds_upserts:
  "only_adds_upserts w (snd (fetch_existing_resource_records c zid f w))"
  by (simp add: only_adds_upserts_iff fetch_snd emit_def)

lemma logging_only_adds_upserts: "only_adds_upserts w (logging_info l w)"
  by (simp add: only_adds_upserts_iff logging_info_def emit_def)

lemma member_loop_only_adds_upserts:
  "only_adds_upserts w (snd (member_loop c zid z t ps w))"
proof (induction ps arbitrary: w)
  case Nil
  show ?case by (simp add: only_adds_upserts_refl)
next
  case (Cons p ps)
  obtain i ip where p: "p = (i, ip)" by (cases p)
  let ?f = "member_fqdn z (Suc i)"
  let ?w1 = "logging_info (TargetIp ?f ip) w"
  obtain r1 w2 where fe: "fetch_existing_resource_records c zid ?f ?w1 = (r1, w2)"
    by (cases "fetch_existing_resource_records c zid ?f ?w1")
  have 1: "only_adds_upserts w w2"
    using logging_only_adds_upserts [of w "TargetIp ?f ip"]
      fetch_only_adds_upserts [of ?w1 c zid ?f] fe only_adds_upserts_trans by fastforce
  show ?case
  proof (cases r1)
    case (Inl e)
    then have "member_loop c zid z t (p # ps) w = (Inl e, w2)"
      by (simp add: p fe Let_def)
    with 1 show ?thesis by simp
  next
    case (Inr ex)
    obtain w3 where r: "reconcile c zid ?f [ip] t (CreatingNewNamed ?f) ex w2 = (Inr (), w3)"
      using reconcile_ok [of c zid ?f "[ip]" t "CreatingNewNamed ?f" ex w2]
      by (cases "reconcile c zid ?f [ip] t (CreatingNewNamed ?f) ex w2") simp
    from Inr have m: "member_loop c zid z t (p # ps) w = member_loop c zid z t ps w3"
      by (simp add: p fe r Let_def)
    have "only_adds_upserts w2 w3"
      using reconcile_only_adds_upserts [of w2 c zid ?f "[ip]" t "CreatingNewNamed ?f" ex] r
      by simp
    with 1 have "only_adds_upserts w w3"
      using only_adds_upserts_trans by blast
    then show ?thesis
      unfolding m using Cons.IH [of w3] only_adds_upserts_trans by blast
  qed
qed

lemma main_only_adds_upserts: "only_adds_upserts w (snd (main c h a w))"
proof -
  obtain r1 w1 where rz: "resolve_zone c (zone a) w = (r1, w1)"
    by (cases "resolve_zone c (zone a) w")
  have 1: "only_adds_upserts w w1"
    using resolve_zone_snd [of c "zone a" w] rz
    by (simp add: only_adds_upserts_iff emit_def)
  show ?thesis
  proof (cases r1)
    case (Inl e)
    then have "main c h a w = (Inl e, w1)"
      by (simp add: main_def rz)
    with 1 show ?thesis by simp
  next
    case zid: (Inr zid)
    show ?thesis
    proof (cases "aggregate_fqdn (rr a) (zone a)")
      case (Inl e)
      with zid have "main c h a w = (Inl e, w1)"
        by (simp add: main_def rz)
      with 1 show ?thesis by simp
    next
      case agg: (Inr agg)
      obtain r2 w2 where
        gz: "get_zk_servers h (exhibitor_url a) (logging_info (Managing agg) w1) = (r2, w2)"
        by (cases "get_zk_servers h (exhibitor_url a) (logging_info (Managing agg) w1)")
      have 2: "only_adds_upserts w w2"
        using 1 get_zk_servers_snd [of h "exhibitor_url a" "logging_info (Managing agg) w1"] gz
        by (simp add: only_adds_upserts_iff emit_def logging_info_def)
      show ?thesis
      proof (cases r2)
        case (Inl e)
        with zid agg have "main c h a w = (Inl e, w2)"
          by (simp add: main_def rz gz)
        with 2 show ?thesis by simp
      next
        case ms: (Inr members)
        obtain r3 w3 where
          fe: "fetch_existing_resource_records c zid agg
                 (logging_info (ExhibitorCluster members) w2) = (r3, w3)"
          by (cases "fetch_existing_resource_records c zid agg
                 (logging_info (ExhibitorCluster members) w2)")
        have 3: "only_adds_upserts w w3"
          using 2 fetch_snd [of c zid agg "logging_info (ExhibitorCluster members) w2"] fe
          by (simp add: only_adds_upserts_iff emit_def logging_info_def)
        show ?thesis
        proof (cases r3)
          case (Inl e)
          with zid agg ms have "main c h a w = (Inl e, w3)"
            by (simp add: main_def rz gz fe)
          with 3 show ?thesis by simp
        next
          case ex: (Inr ex)
          obtain w4 where r: "reconcile c zid agg members (ttl a) CreatingNew ex w3 = (Inr (), w4)"
            using reconcile_ok [of c zid agg members "ttl a" CreatingNew ex w3]
            by (cases "reconcile c zid agg members (ttl a) CreatingNew ex w3") simp
          have "only_adds_upserts w3 w4"
            using reconcile_only_adds_upserts [of w3 c zid agg members "ttl a" CreatingNew ex] r
            by simp
          with 3 have 4: "only_adds_upserts w w4"
            using only_adds_upserts_trans by blast
          obtain r5 w5 where
            ml: "member_loop c zid (zone a) (ttl a) (enumerate 0 (sort members)) w4 = (r5, w5)"
            by (cases "member_loop c zid (zone a) (ttl a) (enumerate 0 (sort members)) w4")
          have "only_adds_upserts w4 w5"
            using member_loop_only_adds_upserts
                    [of w4 c zid "zone a" "ttl a" "enumerate 0 (sort members)"] ml
            by simp
          with 4 have 5: "only_adds_upserts w w5"
            using only_adds_upserts_trans by blast
          have 6: "only_adds_upserts w (logging_info Done w5)"
            using 5 logging_only_adds_upserts only_adds_upserts_trans by blast
          have "main c h a w = (case r5 of Inl e \<Rightarrow> (Inl e, w5)
                                | Inr u \<Rightarrow> (Inr (), logging_info Done w5))"
            using zid agg ms ex by (simp add: main_def rz gz fe r ml)
          with 5 6 show ?thesis by (simp split: sum.splits)
        qed
      qed
    qed
  qed
qed

section \<open>Stale records\<close>

lemma sort_ne_Nil: "xs \<noteq> [] \<Longrightarrow> sort xs \<noteq> []"
  by (metis length_sort length_0_conv)

text \<open>
  C10. The program never deletes or empties a record. When the desired value list is
  empty (the ensemble reports no member) and the record exists with values, the
  reconciler takes the update branch, the writer's guard makes no provider call, and
  the provider's state, with the record's values and TTL, is as before. Over a whole
  run, every change batch submitted is a non-empty list of UPSERT changes that carry at
  least one value each.
\<close>

theorem stale_record_left_in_place:
  "(existing \<noteq> [] \<longrightarrow>
      reconcile c zid f [] t creating existing w =
        (Inr (), logging_info UpdatingRecord (logging_info (ExistingRecord existing) w))
      \<and> provider (snd (reconcile c zid f [] t creating existing w)) = provider w
      \<and> change_calls (trace (snd (reconcile c zid f [] t creating existing w)))
          = change_calls (trace w))
   \<and> only_adds_upserts w (snd (main c h a w))"
proof -
  have "reconcile c zid f [] t creating existing w =
        (Inr (), logging_info UpdatingRecord (logging_info (ExistingRecord existing) w))"
    if "existing \<noteq> []"
    using that sort_ne_Nil [of existing]
    by (simp add: reconcile_def Let_def upsert_record_empty)
  then show ?thesis
    by (simp add: main_only_adds_upserts logging_info_def emit_def)
qed

theorem stale_record_left_in_place_witness:
  "[''10.0.0.1''] \<noteq> []
   \<and> reconcile table_client (Some ''Z1'') ''zk.example.com.'' [] 300 CreatingNew [''10.0.0.1'']
       (world0 stale_table)
     = (Inr (), \<lparr>provider = stale_table,
                 trace = [Log (ExistingRecord [''10.0.0.1'']), Log UpdatingRecord]\<rparr>)
   \<and> main table_client (static_http []) (example_args ''zk'') (world0 stale_table)
     = (Inr (), \<lparr>provider = stale_table,
          trace = [ZoneLookup ''example.com'', Log (Managing ''zk.example.com.''),
                   HttpGet ''http://exhibitor/exhibitor/v1/cluster/list''
                     [(''accept'', ''application/json'')],
                   Log (ExhibitorCluster []),
                   ListCall (Some ''Z1'') ''zk.example.com.'' ''A'',
                   Log (ExistingRecord [''10.0.0.1'']), Log UpdatingRecord, Log Done]\<rparr>)
   \<and> only_adds_upserts (world0 stale_table)
        (snd (main table_client (static_http []) (example_args ''zk'') (world0 stale_table)))"
proof -
  have m: "main table_client (static_http []) (example_args ''zk'') (world0 stale_table)
     = (Inr (), \<lparr>provider = stale_table,
          trace = [ZoneLookup ''example.com'', Log (Managing ''zk.example.com.''),
                   HttpGet ''http://exhibitor/exhibitor/v1/cluster/list''
                     [(''accept'', ''application/json'')],
                   Log (ExhibitorCluster []),
                   ListCall (Some ''Z1'') ''zk.example.com.'' ''A'',
                   Log (ExistingRecord [''10.0.0.1'']), Log UpdatingRecord, Log Done]\<rparr>)"
    by code_simp
  have l: "logging_info UpdatingRecord (logging_info (ExistingRecord [''10.0.0.1'']) (world0 stale_table))
     = \<lparr>provider = stale_table,
                 trace = [Log (ExistingRecord [''10.0.0.1'']), Log UpdatingRecord]\<rparr>"
    by (simp add: logging_info_def emit_def world0_def)
  from stale_record_left_in_place
         [of "[''10.0.0.1'']" table_client "Some ''Z1''" "''zk.example.com.''" 300 CreatingNew
              "world0 stale_table" "static_http []" "example_args ''zk''"] m l
  show ?thesis by simp
qed

section \<open>What a completed run submits\<close>

lemma fetch_fetched:
  "fst (fetch_existing_resource_records c zid f w) = fetched c (provider w) zid f"
  by (simp add: fetch_fst fetched_def)

lemma fetch_provider:
  "provider (snd (fetch_existing_resource_records c zid f w)) = provider w"
  by (simp add: fetch_snd emit_def)

lemma reconcile_provider:
  "provider (snd (reconcile c zid f desired t creating ex w)) =
     (if needs_upsert desired ex
      then snd (change_resource_record_sets c (provider w) zid
                  (upsert_change f t (map (\<lambda>v. \<lparr>Value = Some v\<rparr>) desired)))
      else provider w)"
proof (cases "desired = []")
  case True
  then show ?thesis
    by (simp add: reconcile_def Let_def needs_upsert_def upsert_record_empty logging_info_def emit_def)
next
  case False
  then show ?thesis
    by (simp add: reconcile_def Let_def needs_upsert_def upsert_record_nonempty logging_info_def
        emit_def split: option.splits)
qed

lemma member_loop_changes:
  "member_loop c zid z t ps w = (Inr (), w') \<Longrightarrow>
     change_calls (trace w') =
       change_calls (trace w) @
         fst (run_plan c zid t (map (\<lambda>(i, ip). (member_fqdn z (Suc i), [ip])) ps) (provider w))
   \<and> provider w' =
         snd (run_plan c zid t (map (\<lambda>(i, ip). (member_fqdn z (Suc i), [ip])) ps) (provider w))"
proof (induction ps arbitrary: w)
  case Nil
  then show ?case by simp
next
  case (Cons p ps)
  obtain i ip where p: "p = (i, ip)" by (cases p)
  let ?f = "member_fqdn z (Suc i)"
  let ?w1 = "logging_info (TargetIp ?f ip) w"
  from Cons.prems p obtain ex w2 where
    fe: "fetch_existing_resource_records c zid ?f ?w1 = (Inr ex, w2)"
    by (auto simp: Let_def split: prod.splits sum.splits)
  let ?r = "reconcile c zid ?f [ip] t (CreatingNewNamed ?f) ex w2"
  from Cons.prems p fe have rest: "member_loop c zid z t ps (snd ?r) = (Inr (), w')"
    by (auto simp: Let_def split: prod.splits sum.splits)
  have w2: "w2 = emit (ListCall zid ?f ''A'') ?w1"
    using fetch_snd [of c zid ?f ?w1] fe by simp
  have pw2: "provider w2 = provider w"
    by (simp add: w2 logging_info_def emit_def)
  have ex: "fetched c (provider w) zid ?f = Inr ex"
    using fetch_fetched [of c zid ?f ?w1] fe by (simp add: logging_info_def emit_def)
  have c: "change_calls (trace (snd ?r)) = change_calls (trace w) @
       (if needs_upsert [ip] ex then [upsert_change ?f t [\<lparr>Value = Some ip\<rparr>]] else [])"
    by (simp add: reconcile_changes w2 emit_def logging_info_def)
  have pr: "provider (snd ?r) =
     (if needs_upsert [ip] ex
      then snd (change_resource_record_sets c (provider w) zid
                  (upsert_change ?f t [\<lparr>Value = Some ip\<rparr>]))
      else provider w)"
    by (simp add: reconcile_provider pw2)
  note ih = Cons.IH [OF rest]
  show ?case
  proof (cases "needs_upsert [ip] ex")
    case True
    with ih c pr ex show ?thesis by (simp add: p Let_def)
  next
    case False
    with ih c pr ex show ?thesis by (simp add: p)
  qed
qed

lemma main_success_changes:
  assumes run: "main c h a w = (Inr (), w')"
    and zid: "fst (resolve_zone c (zone a) w) = Inr zid"
    and agg: "aggregate_fqdn (rr a) (zone a) = Inr agg"
    and members: "fst (get_zk_servers h (exhibitor_url a) w) = Inr members"
  shows "change_calls (trace w') =
           change_calls (trace w) @
             fst (run_plan c zid (ttl a)
                    ((agg, members)
                     # map (\<lambda>k. (''zk'' @ fmt_02d (k + 1) @ ''.'' @ zone a @ ''.'',
                                  [sort members ! k])) [0..<length members])
                    (provider w))
       \<and> provider w' =
             snd (run_plan c zid (ttl a)
                    ((agg, members)
                     # map (\<lambda>k. (''zk'' @ fmt_02d (k + 1) @ ''.'' @ zone a @ ''.'',
                                  [sort members ! k])) [0..<length members])
                    (provider w))"
proof -
  from run zid obtain v1 where rz: "resolve_zone c (zone a) w = (Inr zid, v1)"
    by (auto simp: main_def split: prod.splits sum.splits)
  from run rz agg obtain ms v2 where
    gz: "get_zk_servers h (exhibitor_url a) (logging_info (Managing agg) v1) = (Inr ms, v2)"
    by (auto simp: main_def split: prod.splits sum.splits)
  have "ms = members"
    using get_zk_servers_fst [of h "exhibitor_url a" w "logging_info (Managing agg) v1"] gz members
    by simp
  note gz = gz [unfolded this]
  from run rz agg gz obtain ex v3 where
    fe: "fetch_existing_resource_records c zid agg (logging_info (ExhibitorCluster members) v2)
           = (Inr ex, v3)"
    by (auto simp: main_def split: prod.splits sum.splits)
  let ?r = "reconcile c zid agg members (ttl a) CreatingNew ex v3"
  let ?ps = "enumerate 0 (sort members)"
  from run rz agg gz fe obtain v5 where
    ml: "member_loop c zid (zone a) (ttl a) ?ps (snd ?r) = (Inr (), v5)"
    and w': "w' = logging_info Done v5"
    by (auto simp: main_def split: prod.splits sum.splits)
  have v3: "provider v3 = provider w \<and> change_calls (trace v3) = change_calls (trace w)"
    using resolve_zone_snd [of c "zone a" w] rz
      get_zk_servers_snd [of h "exhibitor_url a" "logging_info (Managing agg) v1"] gz
      fetch_snd [of c zid agg "logging_info (ExhibitorCluster members) v2"] fe
    by (simp add: emit_def logging_info_def)
  have ex: "fetched c (provider w) zid agg = Inr ex"
    using fetch_fetched [of c zid agg "logging_info (ExhibitorCluster members) v2"]
      fetch_provider [of c zid agg "logging_info (ExhibitorCluster members) v2"] fe v3
    by simp
  have c: "change_calls (trace (snd ?r)) = change_calls (trace w) @
       (if needs_upsert members ex
        then [upsert_change agg (ttl a) (map (\<lambda>v. \<lparr>Value = Some v\<rparr>) members)] else [])"
    by (simp add: reconcile_changes v3)
  have pr: "provider (snd ?r) =
     (if needs_upsert members ex
      then snd (change_resource_record_sets c (provider w) zid
                  (upsert_change agg (ttl a) (map (\<lambda>v. \<lparr>Value = Some v\<rparr>) members)))
      else provider w)"
    by (simp add: reconcile_provider v3)
  have pl: "map (\<lambda>(i, ip). (member_fqdn (zone a) (Suc i), [ip])) ?ps
     = map (\<lambda>k. (''zk'' @ fmt_02d (k + 1) @ ''.'' @ zone a @ ''.'', [sort members ! k]))
         [0..<length members]"
    using enumerate_map_nth [of "\<lambda>i ip. (member_fqdn (zone a) (Suc i), [ip])" 0 "sort members"]
    by (simp add: member_fqdn_def)
  note lp = member_loop_changes [OF ml, unfolded pl]
  have d: "change_calls (trace w') = change_calls (trace v5) \<and> provider w' = provider v5"
    by (simp add: w' logging_info_def emit_def)
  show ?thesis
  proof (cases "needs_upsert members ex")
    case True
    with lp c pr ex d show ?thesis by (simp add: Let_def)
  next
    case False
    with lp c pr ex d show ?thesis by simp
  qed
qed

lemma run_plan_state_kept:
  assumes keep: "\<forall>p z b. snd (change_resource_record_sets c p z b) = p"
    and reads: "\<forall>p z n. \<exists>res. list_resource_record_sets c p z n ''A'' = Inr res"
  shows "fst (run_plan c zid t plan p) =
           map (\<lambda>(n, d). upsert_change n t (map (\<lambda>v. \<lparr>Value = Some v\<rparr>) d))
             (filter (\<lambda>(n, d). case fetched c p zid n of Inl e \<Rightarrow> False
                                 | Inr ex \<Rightarrow> needs_upsert d ex) plan)"
proof (induction plan)
  case Nil
  show ?case by simp
next
  case (Cons x plan)
  obtain n d where x: "x = (n, d)" by (cases x)
  from reads obtain res where "list_resource_record_sets c p zid n ''A'' = Inr res" by blast
  then obtain ex where ex: "fetched c p zid n = Inr ex"
    by (simp add: fetched_def)
  from Cons keep show ?case
    by (simp add: x ex Let_def)
qed

section \<open>The per-member records\<close>

lemma fmt_02d_small: "idx < 10 \<Longrightarrow> fmt_02d idx = [CHR ''0'', digit_char idx]"
  by (simp add: fmt_02d_def decimal.simps)

lemma decimal_two: "10 \<le> idx \<Longrightarrow> idx < 100 \<Longrightarrow> decimal idx = [digit_char (idx div 10), digit_char (idx mod 10)]"
  by (subst decimal.simps) (simp add: decimal.simps [of "idx div 10"])

lemma length_decimal_ge2: "10 \<le> idx \<Longrightarrow> 2 \<le> length (decimal idx)"
  by (subst decimal.simps) (simp add: decimal.simps [of "idx div 10"])

lemma fmt_02d_large: "10 \<le> idx \<Longrightarrow> fmt_02d idx = decimal idx"
  using length_decimal_ge2 [of idx] by (simp add: fmt_02d_def)

text \<open>
  C4. In a run that completes, the driver handles one per-member record per member, in
  ascending order of the sorted addresses: the member of 1-based rank \<open>k + 1\<close> is logged
  and read under the name \<^verbatim>\<open>zk\<close>, the rank zero-padded to two digits, a dot, the zone
  name and a dot. The changes the run submits, and the provider state it leaves, are
  exactly those of reconciling in order the aggregate record against the member list
  and then each per-member record against the singleton list of that member's address:
  an UPSERT of the singleton is submitted exactly when the record read is empty or
  differs from it.
\<close>

theorem per_member_records_in_rank_order:
  assumes run: "main c h a w = (Inr (), w')"
    and zid: "fst (resolve_zone c (zone a) w) = Inr zid"
    and agg: "aggregate_fqdn (rr a) (zone a) = Inr agg"
    and members: "fst (get_zk_servers h (exhibitor_url a) w) = Inr members"
  shows "target_lines (trace w') =
           target_lines (trace w) @
             map (\<lambda>k. (''zk'' @ fmt_02d (k + 1) @ ''.'' @ zone a @ ''.'', sort members ! k))
               [0..<length members]
       \<and> list_calls (trace w') =
           list_calls (trace w) @
             agg # map (\<lambda>k. ''zk'' @ fmt_02d (k + 1) @ ''.'' @ zone a @ ''.'') [0..<length members]
       \<and> change_calls (trace w') =
           change_calls (trace w) @
             fst (run_plan c zid (ttl a)
                    ((agg, members)
                     # map (\<lambda>k. (''zk'' @ fmt_02d (k + 1) @ ''.'' @ zone a @ ''.'',
                                  [sort members ! k])) [0..<length members])
                    (provider w))
       \<and> provider w' =
           snd (run_plan c zid (ttl a)
                  ((agg, members)
                   # map (\<lambda>k. (''zk'' @ fmt_02d (k + 1) @ ''.'' @ zone a @ ''.'',
                                [sort members ! k])) [0..<length members])
                  (provider w))
       \<and> (idx < 10 \<longrightarrow> fmt_02d idx = [CHR ''0'', digit_char idx])
       \<and> (10 \<le> idx \<and> idx < 100 \<longrightarrow> fmt_02d idx = [digit_char (idx div 10), digit_char (idx mod 10)])"
proof -
  from main_success_trace [OF run] agg members
  have t: "target_lines (trace w') =
        target_lines (trace w) @
          map (\<lambda>(i, ip). (member_fqdn (zone a) (i + 1), ip)) (enumerate 0 (sort members))"
    and l: "list_calls (trace w') =
        list_calls (trace w) @
          agg # map (\<lambda>(i, ip). member_fqdn (zone a) (i + 1)) (enumerate 0 (sort members))"
    by auto
  have 1: "map (\<lambda>(i, ip). (member_fqdn (zone a) (i + 1), ip)) (enumerate 0 (sort members))
     = map (\<lambda>k. (''zk'' @ fmt_02d (k + 1) @ ''.'' @ zone a @ ''.'', sort members ! k))
               [0..<length members]"
    using enumerate_map_nth [of "\<lambda>i ip. (member_fqdn (zone a) (i + 1), ip)" 0 "sort members"]
    by (simp add: member_fqdn_def)
  have 2: "map (\<lambda>(i, ip). member_fqdn (zone a) (i + 1)) (enumerate 0 (sort members))
     = map (\<lambda>k. ''zk'' @ fmt_02d (k + 1) @ ''.'' @ zone a @ ''.'') [0..<length members]"
    using enumerate_map_nth [of "\<lambda>i ip. member_fqdn (zone a) (i + 1)" 0 "sort members"]
    by (simp add: member_fqdn_def)
  note c = main_success_changes [OF run zid agg members]
  show ?thesis
    using t l c unfolding 1 2
    by (simp add: fmt_02d_small fmt_02d_large decimal_two)
qed

theorem per_member_records_in_rank_order_witness:
  "fst (main table_client (static_http two_members) (example_args ''zk'') (world0 [])) = Inr ()
   \<and> target_lines (trace (snd (main table_client (static_http two_members) (example_args ''zk'')
                                  (world0 []))))
     = [(''zk01.example.com.'', ''10.0.0.1''), (''zk02.example.com.'', ''10.0.0.2'')]
   \<and> list_calls (trace (snd (main table_client (static_http two_members) (example_args ''zk'')
                                  (world0 []))))
     = [''zk.example.com.'', ''zk01.example.com.'', ''zk02.example.com.'']
   \<and> change_calls (trace (snd (main table_client (static_http two_members) (example_args ''zk'')
                                  (world0 []))))
     = [upsert_change ''zk.example.com.'' 300
          [\<lparr>Value = Some ''10.0.0.1''\<rparr>, \<lparr>Value = Some ''10.0.0.2''\<rparr>],
        upsert_change ''zk01.example.com.'' 300 [\<lparr>Value = Some ''10.0.0.1''\<rparr>],
        upsert_change ''zk02.example.com.'' 300 [\<lparr>Value = Some ''10.0.0.2''\<rparr>]]
   \<and> provider (snd (main table_client (static_http two_members) (example_args ''zk'')
                       (world0 [])))
     = [(''zk02.example.com.'', 300, [''10.0.0.2'']),
        (''zk01.example.com.'', 300, [''10.0.0.1'']),
        (''zk.example.com.'', 300, [''10.0.0.1'', ''10.0.0.2''])]
   \<and> fst (main table_client (static_http two_members) (example_args ''zk'')
            (world0 mixed_table)) = Inr ()
   \<and> change_calls (trace (snd (main table_client (static_http two_members) (example_args ''zk'')
                                  (world0 mixed_table))))
     = [upsert_change ''zk.example.com.'' 300
          [\<lparr>Value = Some ''10.0.0.1''\<rparr>, \<lparr>Value = Some ''10.0.0.2''\<rparr>],
        upsert_change ''zk02.example.com.'' 300 [\<lparr>Value = Some ''10.0.0.2''\<rparr>]]
   \<and> fmt_02d 7 = ''07'' \<and> fmt_02d 42 = ''42''"
proof -
  let ?a = "example_args ''zk''"
  let ?m = "main table_client (static_http two_members) ?a (world0 [])"
  let ?m' = "main table_client (static_http two_members) ?a (world0 mixed_table)"
  let ?ms = "[''10.0.0.1'', ''10.0.0.2'']"
  let ?plan = "(''zk.example.com.'', ?ms)
                 # map (\<lambda>k. (''zk'' @ fmt_02d (k + 1) @ ''.'' @ zone ?a @ ''.'', [sort ?ms ! k]))
                     [0..<length ?ms]"
  have r: "fst ?m = Inr ()" by code_simp
  then have run: "?m = (Inr (), snd ?m)" by (metis prod.collapse)
  have r': "fst ?m' = Inr ()" by code_simp
  then have run': "?m' = (Inr (), snd ?m')" by (metis prod.collapse)
  have zid: "fst (resolve_zone table_client (zone ?a) (world0 ([]::zone_table))) = Inr (Some ''Z1'')"
    by code_simp
  have zid': "fst (resolve_zone table_client (zone ?a) (world0 mixed_table)) = Inr (Some ''Z1'')"
    by code_simp
  have agg: "aggregate_fqdn (rr ?a) (zone ?a) = Inr ''zk.example.com.''"
    by code_simp
  have ms: "fst (get_zk_servers (static_http two_members) (exhibitor_url ?a)
                   (world0 ([]::zone_table))) = Inr ?ms"
    by code_simp
  have ms': "fst (get_zk_servers (static_http two_members) (exhibitor_url ?a)
                   (world0 mixed_table)) = Inr ?ms"
    by code_simp
  have e1: "map (\<lambda>k. (''zk'' @ fmt_02d (k + 1) @ ''.'' @ zone ?a @ ''.'', sort ?ms ! k))
               [0..<length ?ms]
     = [(''zk01.example.com.'', ''10.0.0.1''), (''zk02.example.com.'', ''10.0.0.2'')]"
    by code_simp
  have e2: "map (\<lambda>k. ''zk'' @ fmt_02d (k + 1) @ ''.'' @ zone ?a @ ''.'') [0..<length ?ms]
     = [''zk01.example.com.'', ''zk02.example.com.'']"
    by code_simp
  have p1: "run_plan table_client (Some ''Z1'') (ttl ?a) ?plan (provider (world0 []))
     = ([upsert_change ''zk.example.com.'' 300
          [\<lparr>Value = Some ''10.0.0.1''\<rparr>, \<lparr>Value = Some ''10.0.0.2''\<rparr>],
        upsert_change ''zk01.example.com.'' 300 [\<lparr>Value = Some ''10.0.0.1''\<rparr>],
        upsert_change ''zk02.example.com.'' 300 [\<lparr>Value = Some ''10.0.0.2''\<rparr>]],
        [(''zk02.example.com.'', 300, [''10.0.0.2'']),
        (''zk01.example.com.'', 300, [''10.0.0.1'']),
        (''zk.example.com.'', 300, [''10.0.0.1'', ''10.0.0.2''])])"
    by code_simp
  have p2: "fst (run_plan table_client (Some ''Z1'') (ttl ?a) ?plan (provider (world0 mixed_table)))
     = [upsert_change ''zk.example.com.'' 300
          [\<lparr>Value = Some ''10.0.0.1''\<rparr>, \<lparr>Value = Some ''10.0.0.2''\<rparr>],
        upsert_change ''zk02.example.com.'' 300 [\<lparr>Value = Some ''10.0.0.2''\<rparr>]]"
    by code_simp
  have d: "[CHR ''0'', digit_char 7] = ''07'' \<and> [digit_char (42 div 10), digit_char (42 mod 10)] = ''42''"
    by code_simp
  from per_member_records_in_rank_order [OF run zid agg ms, of 7]
    per_member_records_in_rank_order [OF run zid agg ms, of 42]
    per_member_records_in_rank_order [OF run' zid' agg ms', of 7] r r' d
  show ?thesis
    unfolding e1 e2 p1 p2 by (simp add: world0_def)
qed

section \<open>Errors of the writer\<close>

lemma member_loop_total:
  assumes "\<forall>p z n. \<exists>res. list_resource_record_sets c p z n ''A'' = Inr res"
  shows "\<exists>w'. member_loop c zid z t ps w = (Inr (), w')"
proof (induction ps arbitrary: w)
  case Nil
  show ?case by simp
next
  case (Cons p ps)
  obtain i ip where p: "p = (i, ip)" by (cases p)
  let ?f = "member_fqdn z (Suc i)"
  let ?w1 = "logging_info (TargetIp ?f ip) w"
  from assms obtain res where "list_resource_record_sets c (provider ?w1) zid ?f ''A'' = Inr res"
    by blast
  then obtain ex w2 where fe: "fetch_existing_resource_records c zid ?f ?w1 = (Inr ex, w2)"
    using fetch_fst [of c zid ?f ?w1]
    by (cases "fetch_existing_resource_records c zid ?f ?w1") simp
  obtain w3 where r: "reconcile c zid ?f [ip] t (CreatingNewNamed ?f) ex w2 = (Inr (), w3)"
    using reconcile_ok [of c zid ?f "[ip]" t "CreatingNewNamed ?f" ex w2]
    by (cases "reconcile c zid ?f [ip] t (CreatingNewNamed ?f) ex w2") simp
  have "member_loop c zid z t (p # ps) w = member_loop c zid z t ps w3"
    by (simp add: p fe r Let_def)
  with Cons.IH [of w3] show ?case by simp
qed

lemma main_total:
  assumes z: "list_hosted_zones_by_name c (zone a) = Inr zresp" "HostedZones zresp = Some (hz # hzs)"
    and r: "rr a \<noteq> []"
    and g: "fst (get_zk_servers h (exhibitor_url a) w) = Inr members"
    and l: "\<forall>p z n. \<exists>res. list_resource_record_sets c p z n ''A'' = Inr res"
  shows "\<exists>w'. main c h a w = (Inr (), w')"
proof -
  let ?w1 = "emit (ZoneLookup (zone a)) w"
  from z have rz: "resolve_zone c (zone a) w = (Inr (zone_Id hz), ?w1)"
    by (simp add: resolve_zone_def Let_def)
  from r obtain agg where ag: "aggregate_fqdn (rr a) (zone a) = Inr agg"
    using aggregate_fqdn_total by blast
  obtain w2 where gz: "get_zk_servers h (exhibitor_url a) (logging_info (Managing agg) ?w1)
                         = (Inr members, w2)"
    using g get_zk_servers_fst [of h "exhibitor_url a" "logging_info (Managing agg) ?w1" w]
    by (cases "get_zk_servers h (exhibitor_url a) (logging_info (Managing agg) ?w1)") simp
  let ?w2 = "logging_info (ExhibitorCluster members) w2"
  from l obtain res where
    "list_resource_record_sets c (provider ?w2) (zone_Id hz) agg ''A'' = Inr res"
    by blast
  then obtain ex w3 where
    fe: "fetch_existing_resource_records c (zone_Id hz) agg ?w2 = (Inr ex, w3)"
    using fetch_fst [of c "zone_Id hz" agg ?w2]
    by (cases "fetch_existing_resource_records c (zone_Id hz) agg ?w2") simp
  obtain w4 where rc: "reconcile c (zone_Id hz) agg members (ttl a) CreatingNew ex w3 = (Inr (), w4)"
    using reconcile_ok [of c "zone_Id hz" agg members "ttl a" CreatingNew ex w3]
    by (cases "reconcile c (zone_Id hz) agg members (ttl a) CreatingNew ex w3") simp
  from member_loop_total [OF l] obtain w5 where
    ml: "member_loop c (zone_Id hz) (zone a) (ttl a) (enumerate 0 (sort members)) w4 = (Inr (), w5)"
    by blast
  have "main c h a w = (Inr (), logging_info Done w5)"
    by (simp add: main_def rz ag gz fe rc ml)
  then show ?thesis by blast
qed

text \<open>
  C7. Whatever the provider raises during an upsert, the writer returns normally, having
  logged the exception after the change call. So when the setup succeeds (zone lookup,
  record name, ensemble fetch) and the reads succeed, the run completes normally
  whatever the changes do; it reads the aggregate record and then every per-member
  record, and the changes it submits are exactly those of reconciling these records in
  order, none dropped because an earlier one raised. In particular, against a provider
  whose every change fails and leaves its state as it was, the run still submits the
  UPSERT of every record whose values are missing or different.
\<close>

theorem upsert_errors_do_not_abort:
  "fst (upsert_record c zid f ip_list t w) = Inr ()
   \<and> (ip_list \<noteq> []
      \<and> fst (change_resource_record_sets c (provider w) zid
               (upsert_change f t (map (\<lambda>v. \<lparr>Value = Some v\<rparr>) ip_list))) = Some e
      \<longrightarrow> trace (snd (upsert_record c zid f ip_list t w)) =
            trace w @ [ChangeCall zid (upsert_change f t (map (\<lambda>v. \<lparr>Value = Some v\<rparr>) ip_list)),
                       Log (LoggedException e)])
   \<and> (list_hosted_zones_by_name c (zone a) = Inr zresp \<and> HostedZones zresp = Some (hz # hzs)
      \<and> aggregate_fqdn (rr a) (zone a) = Inr agg
      \<and> fst (get_zk_servers h (exhibitor_url a) w) = Inr members
      \<and> (\<forall>p z n. \<exists>res. list_resource_record_sets c p z n ''A'' = Inr res)
      \<longrightarrow> fst (main c h a w) = Inr ()
        \<and> list_calls (trace (snd (main c h a w))) =
            list_calls (trace w) @
              agg # map (\<lambda>k. ''zk'' @ fmt_02d (k + 1) @ ''.'' @ zone a @ ''.'') [0..<length members]
        \<and> change_calls (trace (snd (main c h a w))) =
            change_calls (trace w) @
              fst (run_plan c (zone_Id hz) (ttl a)
                     ((agg, members)
                      # map (\<lambda>k. (''zk'' @ fmt_02d (k + 1) @ ''.'' @ zone a @ ''.'',
                                   [sort members ! k])) [0..<length members])
                     (provider w)))
   \<and> (list_hosted_zones_by_name c (zone a) = Inr zresp \<and> HostedZones zresp = Some (hz # hzs)
      \<and> aggregate_fqdn (rr a) (zone a) = Inr agg
      \<and> fst (get_zk_servers h (exhibitor_url a) w) = Inr members
      \<and> (\<forall>p z n. \<exists>res. list_resource_record_sets c p z n ''A'' = Inr res)
      \<and> (\<forall>p z b. snd (change_resource_record_sets c p z b) = p)
      \<longrightarrow> change_calls (trace (snd (main c h a w))) =
            change_calls (trace w) @
              map (\<lambda>(n, d). upsert_change n (ttl a) (map (\<lambda>v. \<lparr>Value = Some v\<rparr>) d))
                (filter (\<lambda>(n, d). case fetched c (provider w) (zone_Id hz) n of
                                     Inl e \<Rightarrow> False | Inr ex \<Rightarrow> needs_upsert d ex)
                   ((agg, members)
                    # map (\<lambda>k. (''zk'' @ fmt_02d (k + 1) @ ''.'' @ zone a @ ''.'',
                                 [sort members ! k])) [0..<length members])))"
proof -
  let ?plan = "(agg, members)
                 # map (\<lambda>k. (''zk'' @ fmt_02d (k + 1) @ ''.'' @ zone a @ ''.'',
                              [sort members ! k])) [0..<length members]"
  have A: "trace (snd (upsert_record c zid f ip_list t w)) =
            trace w @ [ChangeCall zid (upsert_change f t (map (\<lambda>v. \<lparr>Value = Some v\<rparr>) ip_list)),
                       Log (LoggedException e)]"
    if "ip_list \<noteq> []" "fst (change_resource_record_sets c (provider w) zid
               (upsert_change f t (map (\<lambda>v. \<lparr>Value = Some v\<rparr>) ip_list))) = Some e"
    using that by (simp add: upsert_record_nonempty Let_def emit_def logging_info_def)
  have B: "fst (main c h a w) = Inr ()
        \<and> list_calls (trace (snd (main c h a w))) =
            list_calls (trace w) @
              agg # map (\<lambda>k. ''zk'' @ fmt_02d (k + 1) @ ''.'' @ zone a @ ''.'') [0..<length members]
        \<and> change_calls (trace (snd (main c h a w))) =
            change_calls (trace w) @ fst (run_plan c (zone_Id hz) (ttl a) ?plan (provider w))"
    if z: "list_hosted_zones_by_name c (zone a) = Inr zresp" "HostedZones zresp = Some (hz # hzs)"
      and ag: "aggregate_fqdn (rr a) (zone a) = Inr agg"
      and g: "fst (get_zk_servers h (exhibitor_url a) w) = Inr members"
      and l: "\<forall>p z n. \<exists>res. list_resource_record_sets c p z n ''A'' = Inr res"
  proof -
    from ag have r: "rr a \<noteq> []" by (auto simp: aggregate_fqdn_def)
    from main_total [OF z r g l] obtain w' where m: "main c h a w = (Inr (), w')" by blast
    from z have zid: "fst (resolve_zone c (zone a) w) = Inr (zone_Id hz)"
      by (simp add: resolve_zone_def Let_def)
    from main_success_trace [OF m] ag g
    have "list_calls (trace w') =
        list_calls (trace w) @
          agg # map (\<lambda>(i, ip). member_fqdn (zone a) (i + 1)) (enumerate 0 (sort members))"
      by auto
    moreover have "map (\<lambda>(i, ip). member_fqdn (zone a) (i + 1)) (enumerate 0 (sort members))
       = map (\<lambda>k. ''zk'' @ fmt_02d (k + 1) @ ''.'' @ zone a @ ''.'') [0..<length members]"
      using enumerate_map_nth [of "\<lambda>i ip. member_fqdn (zone a) (i + 1)" 0 "sort members"]
      by (simp add: member_fqdn_def)
    moreover note main_success_changes [OF m zid ag g]
    ultimately show ?thesis by (simp add: m)
  qed
  have C: "change_calls (trace (snd (main c h a w))) =
            change_calls (trace w) @
              map (\<lambda>(n, d). upsert_change n (ttl a) (map (\<lambda>v. \<lparr>Value = Some v\<rparr>) d))
                (filter (\<lambda>(n, d). case fetched c (provider w) (zone_Id hz) n of
                                     Inl e \<Rightarrow> False | Inr ex \<Rightarrow> needs_upsert d ex) ?plan)"
    if z: "list_hosted_zones_by_name c (zone a) = Inr zresp" "HostedZones zresp = Some (hz # hzs)"
      and ag: "aggregate_fqdn (rr a) (zone a) = Inr agg"
      and g: "fst (get_zk_servers h (exhibitor_url a) w) = Inr members"
      and l: "\<forall>p z n. \<exists>res. list_resource_record_sets c p z n ''A'' = Inr res"
      and k: "\<forall>p z b. snd (change_resource_record_sets c p z b) = p"
    using B [OF z ag g l] run_plan_state_kept [OF k l, of "zone_Id hz" "ttl a" ?plan "provider w"]
    by simp
  from A B C show ?thesis by (simp add: upsert_record_ok)
qed

theorem upsert_errors_do_not_abort_witness:
  "fst (upsert_record refusing_client (Some ''Z1'') ''zk.example.com.'' [''10.0.0.1''] 300
          (world0 [])) = Inr ()
   \<and> trace (snd (upsert_record refusing_client (Some ''Z1'') ''zk.example.com.''
                   [''10.0.0.1''] 300 (world0 [])))
     = [ChangeCall (Some ''Z1'')
          (upsert_change ''zk.example.com.'' 300 [\<lparr>Value = Some ''10.0.0.1''\<rparr>]),
        Log (LoggedException (ProviderError ''AccessDenied''))]
   \<and> fst (main refusing_client (static_http two_members) (example_args ''zk'') (world0 []))
     = Inr ()
   \<and> list_calls (trace (snd (main refusing_client (static_http two_members)
                                (example_args ''zk'') (world0 []))))
     = [''zk.example.com.'', ''zk01.example.com.'', ''zk02.example.com.'']
   \<and> change_calls (trace (snd (main refusing_client (static_http two_members)
                                  (example_args ''zk'') (world0 []))))
     = [upsert_change ''zk.example.com.'' 300
          [\<lparr>Value = Some ''10.0.0.1''\<rparr>, \<lparr>Value = Some ''10.0.0.2''\<rparr>],
        upsert_change ''zk01.example.com.'' 300 [\<lparr>Value = Some ''10.0.0.1''\<rparr>],
        upsert_change ''zk02.example.com.'' 300 [\<lparr>Value = Some ''10.0.0.2''\<rparr>]]"
proof -
  let ?a = "example_args ''zk''"
  let ?zr = "\<lparr>HostedZones = Some [\<lparr>zone_Id = Some ''Z1''\<rparr>]\<rparr>"
  let ?ms = "[''10.0.0.1'', ''10.0.0.2'']"
  let ?plan = "(''zk.example.com.'', ?ms)
                 # map (\<lambda>k. (''zk'' @ fmt_02d (k + 1) @ ''.'' @ zone ?a @ ''.'', [sort ?ms ! k]))
                     [0..<length ?ms]"
  let ?ups = "[upsert_change ''zk.example.com.'' 300
          [\<lparr>Value = Some ''10.0.0.1''\<rparr>, \<lparr>Value = Some ''10.0.0.2''\<rparr>],
        upsert_change ''zk01.example.com.'' 300 [\<lparr>Value = Some ''10.0.0.1''\<rparr>],
        upsert_change ''zk02.example.com.'' 300 [\<lparr>Value = Some ''10.0.0.2''\<rparr>]]"
  have e: "[''10.0.0.1''] \<noteq> []
     \<and> fst (change_resource_record_sets refusing_client (provider (world0 [])) (Some ''Z1'')
               (upsert_change ''zk.example.com.'' 300
                  (map (\<lambda>v. \<lparr>Value = Some v\<rparr>) [''10.0.0.1''])))
        = Some (ProviderError ''AccessDenied'')"
    by (simp add: refusing_client_def)
  have z: "list_hosted_zones_by_name refusing_client (zone ?a) = Inr ?zr
     \<and> HostedZones ?zr = Some (\<lparr>zone_Id = Some ''Z1''\<rparr> # [])"
    by (simp add: refusing_client_def table_client_def)
  have agg: "aggregate_fqdn (rr ?a) (zone ?a) = Inr ''zk.example.com.''"
    by code_simp
  have ms: "fst (get_zk_servers (static_http two_members) (exhibitor_url ?a)
                   (world0 ([]::zone_table))) = Inr ?ms"
    by code_simp
  have l: "\<forall>p z n. \<exists>res. list_resource_record_sets refusing_client p z n ''A'' = Inr res"
    by (simp add: refusing_client_def table_client_def table_list_def)
  have k: "\<forall>p z b. snd (change_resource_record_sets refusing_client p z b) = p"
    by (simp add: refusing_client_def)
  have n: "map (\<lambda>k. ''zk'' @ fmt_02d (k + 1) @ ''.'' @ zone ?a @ ''.'') [0..<length ?ms]
     = [''zk01.example.com.'', ''zk02.example.com.'']"
    by code_simp
  have p1: "fst (run_plan refusing_client (zone_Id \<lparr>zone_Id = Some ''Z1''\<rparr>) (ttl ?a) ?plan
                   (provider (world0 []))) = ?ups"
    by code_simp
  have p2: "map (\<lambda>(n, d). upsert_change n (ttl ?a) (map (\<lambda>v. \<lparr>Value = Some v\<rparr>) d))
                (filter (\<lambda>(n, d). case fetched refusing_client (provider (world0 []))
                                          (zone_Id \<lparr>zone_Id = Some ''Z1''\<rparr>) n of
                                     Inl e \<Rightarrow> False | Inr ex \<Rightarrow> needs_upsert d ex) ?plan)
            = ?ups"
    by code_simp
  note t = upsert_errors_do_not_abort [where c = refusing_client and zid = "Some ''Z1''"
      and f = "''zk.example.com.''" and ip_list = "[''10.0.0.1'']" and t = 300 and w = "world0 []"
      and e = "ProviderError ''AccessDenied''" and a = ?a and zresp = ?zr
      and hz = "\<lparr>zone_Id = Some ''Z1''\<rparr>" and hzs = "[]" and agg = "''zk.example.com.''"
      and h = "static_http two_members" and members = ?ms]
  from t e z agg ms l k n show ?thesis
    unfolding p1 p2 by (simp add: world0_def)
qed

section \<open>Per-member names are pairwise distinct\<close>

lemma undecimal_snoc: "undecimal (s @ [ch]) = 10 * undecimal s + (of_char ch - 48)"
  by (simp add: undecimal_def)

lemma of_char_digit: "d < 10 \<Longrightarrow> of_char (digit_char d) = (48 + d :: nat)"
  by (simp add: digit_char_def)

lemma undecimal_decimal: "undecimal (decimal n) = n"
proof (induction n rule: decimal.induct)
  case (1 n)
  show ?case
  proof (cases "n < 10")
    case True
    then show ?thesis
      by (subst decimal.simps) (simp add: undecimal_def of_char_digit)
  next
    case False
    with 1 have "undecimal (decimal (n div 10)) = n div 10" by simp
    with False show ?thesis
      by (subst decimal.simps) (simp add: undecimal_snoc of_char_digit)
  qed
qed

lemma undecimal_zeros: "undecimal (replicate k (CHR ''0'') @ s) = undecimal s"
proof (induction k)
  case 0
  show ?case by simp
next
  case (Suc k)
  have "foldl (\<lambda>acc ch. 10 * acc + (of_char ch - 48)) 0 (CHR ''0'' # replicate k (CHR ''0'') @ s)
     = foldl (\<lambda>acc ch. 10 * acc + (of_char ch - 48)) (0::nat) (replicate k (CHR ''0'') @ s)"
    by simp
  with Suc show ?case by (simp add: undecimal_def)
qed

lemma undecimal_fmt_02d: "undecimal (fmt_02d n) = n"
  by (simp add: fmt_02d_def undecimal_zeros undecimal_decimal)

lemma member_fqdn_inj: "member_fqdn z i = member_fqdn z j \<longleftrightarrow> i = j"
proof
  assume "member_fqdn z i = member_fqdn z j"
  then have "fmt_02d i = fmt_02d j" by (simp add: member_fqdn_def)
  then show "i = j" using undecimal_fmt_02d by metis
qed simp

section \<open>Running twice\<close>

lemma fetched_sorted: "fetched c p zid f = Inr ex \<Longrightarrow> sort ex = ex"
  by (auto simp: fetched_def existing_of_response_def sorted_sort_id split: sum.splits)

lemma reconcile_establishes:
  assumes eff: "upsert_takes_effect c"
    and ex: "fetched c (provider w) zid f = Inr ex"
    and d: "desired \<noteq> []"
  shows "fetched c (provider (snd (reconcile c zid f desired t creating ex w))) zid f
           = Inr (sort desired)"
proof (cases "needs_upsert desired ex")
  case True
  with eff d show ?thesis
    by (simp add: reconcile_provider upsert_takes_effect_def)
next
  case False
  with d have "sort desired = sort ex" by (simp add: needs_upsert_def)
  with fetched_sorted [OF ex] ex False show ?thesis
    by (simp add: reconcile_provider)
qed

lemma reconcile_frame:
  assumes eff: "upsert_takes_effect c" and n: "n' \<noteq> f"
  shows "fetched c (provider (snd (reconcile c zid f desired t creating ex w))) zid n'
           = fetched c (provider w) zid n'"
proof (cases "needs_upsert desired ex")
  case True
  then have "desired \<noteq> []" by (simp add: needs_upsert_def)
  with eff n True show ?thesis
    by (simp add: reconcile_provider upsert_takes_effect_def)
next
  case False
  then show ?thesis by (simp add: reconcile_provider)
qed

lemma member_loop_establishes:
  assumes eff: "upsert_takes_effect c"
  shows "member_loop c zid z t ps w = (Inr (), w') \<Longrightarrow> distinct (map fst ps) \<Longrightarrow>
     (\<forall>(i, ip) \<in> set ps. fetched c (provider w') zid (member_fqdn z (Suc i)) = Inr [ip])
   \<and> (\<forall>n. n \<notin> (\<lambda>(i, ip). member_fqdn z (Suc i)) ` set ps \<longrightarrow>
          fetched c (provider w') zid n = fetched c (provider w) zid n)"
proof (induction ps arbitrary: w)
  case Nil
  then show ?case by simp
next
  case (Cons p ps)
  obtain i ip where p: "p = (i, ip)" by (cases p)
  let ?f = "member_fqdn z (Suc i)"
  let ?w1 = "logging_info (TargetIp ?f ip) w"
  from Cons.prems(1) p obtain ex w2 where
    fe: "fetch_existing_resource_records c zid ?f ?w1 = (Inr ex, w2)"
    by (auto simp: Let_def split: prod.splits sum.splits)
  let ?r = "reconcile c zid ?f [ip] t (CreatingNewNamed ?f) ex w2"
  from Cons.prems(1) p fe have rest: "member_loop c zid z t ps (snd ?r) = (Inr (), w')"
    by (auto simp: Let_def split: prod.splits sum.splits)
  have pw2: "provider w2 = provider w"
    using fetch_provider [of c zid ?f ?w1] fe by (simp add: logging_info_def emit_def)
  have ex: "fetched c (provider w2) zid ?f = Inr ex"
    using fetch_fetched [of c zid ?f ?w1] fe pw2 by (simp add: logging_info_def emit_def)
  have here: "fetched c (provider (snd ?r)) zid ?f = Inr [ip]"
    using reconcile_establishes [OF eff ex, of "[ip]" t "CreatingNewNamed ?f"] by simp
  have other: "fetched c (provider (snd ?r)) zid n = fetched c (provider w) zid n" if "n \<noteq> ?f" for n
    using reconcile_frame [OF eff that, of zid "[ip]" t "CreatingNewNamed ?f" ex w2] pw2 by simp
  from Cons.prems(2) have dps: "distinct (map fst ps)" and ni: "i \<notin> fst ` set ps"
    by (auto simp: p)
  note ih = Cons.IH [OF rest dps]
  have fresh: "?f \<notin> (\<lambda>(i, ip). member_fqdn z (Suc i)) ` set ps"
    using ni by (force simp: member_fqdn_inj)
  have 1: "fetched c (provider w') zid ?f = Inr [ip]"
    using ih fresh here by simp
  have 2: "fetched c (provider w') zid n = fetched c (provider w) zid n"
    if "n \<notin> (\<lambda>(i, ip). member_fqdn z (Suc i)) ` set (p # ps)" for n
  proof -
    from that have "n \<noteq> ?f" and "n \<notin> (\<lambda>(i, ip). member_fqdn z (Suc i)) ` set ps"
      by (auto simp: p)
    with ih other show ?thesis by simp
  qed
  from 1 2 ih show ?case by (auto simp: p)
qed

lemma member_loop_settled:
  "\<forall>(i, ip) \<in> set ps. fetched c (provider w) zid (member_fqdn z (Suc i)) = Inr [ip] \<Longrightarrow>
   \<exists>w'. member_loop c zid z t ps w = (Inr (), w') \<and> provider w' = provider w
       \<and> change_calls (trace w') = change_calls (trace w)"
proof (induction ps arbitrary: w)
  case Nil
  show ?case by simp
next
  case (Cons p ps)
  obtain i ip where p: "p = (i, ip)" by (cases p)
  let ?f = "member_fqdn z (Suc i)"
  let ?w1 = "logging_info (TargetIp ?f ip) w"
  from Cons.prems p have ex: "fetched c (provider ?w1) zid ?f = Inr [ip]"
    by (simp add: logging_info_def emit_def)
  obtain w2 where fe: "fetch_existing_resource_records c zid ?f ?w1 = (Inr [ip], w2)"
    using fetch_fetched [of c zid ?f ?w1] ex
    by (cases "fetch_existing_resource_records c zid ?f ?w1") simp
  have w2: "w2 = emit (ListCall zid ?f ''A'') ?w1"
    using fetch_snd [of c zid ?f ?w1] fe by simp
  let ?w3 = "logging_info UpToDate (logging_info (ExistingRecord [ip]) w2)"
  have r: "reconcile c zid ?f [ip] t (CreatingNewNamed ?f) [ip] w2 = (Inr (), ?w3)"
    by (simp add: reconcile_def Let_def)
  have m: "member_loop c zid z t (p # ps) w = member_loop c zid z t ps ?w3"
    by (simp add: p fe r Let_def)
  have pw: "provider ?w3 = provider w" and cw: "change_calls (trace ?w3) = change_calls (trace w)"
    by (simp_all add: w2 logging_info_def emit_def)
  from Cons.prems have "\<forall>(i, ip) \<in> set ps. fetched c (provider ?w3) zid (member_fqdn z (Suc i)) = Inr [ip]"
    by (simp add: pw)
  from Cons.IH [OF this] pw cw show ?case
    unfolding m by auto
qed

lemma main_second_run:
  assumes eff: "upsert_takes_effect c"
    and run1: "main c h a w = (Inr (), w1)"
    and agg: "aggregate_fqdn (rr a) (zone a) = Inr agg"
    and members: "fst (get_zk_servers h (exhibitor_url a) w) = Inr members"
    and apart: "agg \<notin> set (map (\<lambda>k. ''zk'' @ fmt_02d (k + 1) @ ''.'' @ zone a @ ''.'')
                              [0..<length members])"
  shows "\<exists>w2. main c h a w1 = (Inr (), w2) \<and> provider w2 = provider w1
           \<and> change_calls (trace w2) = change_calls (trace w1)"
proof -
  let ?z = "zone a" and ?t = "ttl a"
  let ?ps = "enumerate 0 (sort members)"
  let ?names = "(\<lambda>(i, ip). member_fqdn ?z (Suc i)) ` set ?ps"
  \<comment> \<open>the first run, step by step\<close>
  from run1 obtain zid v1 where rz: "resolve_zone c ?z w = (Inr zid, v1)"
    by (auto simp: main_def split: prod.splits sum.splits)
  from run1 rz agg obtain ms v2 where
    gz: "get_zk_servers h (exhibitor_url a) (logging_info (Managing agg) v1) = (Inr ms, v2)"
    by (auto simp: main_def split: prod.splits sum.splits)
  have "ms = members"
    using get_zk_servers_fst [of h "exhibitor_url a" w "logging_info (Managing agg) v1"] gz members
    by simp
  note gz = gz [unfolded this]
  from run1 rz agg gz obtain ex v3 where
    fe: "fetch_existing_resource_records c zid agg (logging_info (ExhibitorCluster members) v2)
           = (Inr ex, v3)"
    by (auto simp: main_def split: prod.splits sum.splits)
  let ?r = "reconcile c zid agg members ?t CreatingNew ex v3"
  from run1 rz agg gz fe obtain v5 where
    ml: "member_loop c zid ?z ?t ?ps (snd ?r) = (Inr (), v5)"
    and w1: "w1 = logging_info Done v5"
    by (auto simp: main_def split: prod.splits sum.splits)
  have pv3: "provider v3 = provider w"
    using resolve_zone_snd [of c ?z w] rz
      get_zk_servers_snd [of h "exhibitor_url a" "logging_info (Managing agg) v1"] gz
      fetch_snd [of c zid agg "logging_info (ExhibitorCluster members) v2"] fe
    by (simp add: emit_def logging_info_def)
  have exf: "fetched c (provider v3) zid agg = Inr ex"
    using fetch_fetched [of c zid agg "logging_info (ExhibitorCluster members) v2"]
      fetch_provider [of c zid agg "logging_info (ExhibitorCluster members) v2"] fe
    by simp
  \<comment> \<open>what the provider serves after the first run\<close>
  have nm: "?names = set (map (\<lambda>k. ''zk'' @ fmt_02d (k + 1) @ ''.'' @ ?z @ ''.'')
                              [0..<length members])"
    using enumerate_map_nth [of "\<lambda>i ip. member_fqdn ?z (Suc i)" 0 "sort members"]
      set_map [of "\<lambda>(i, ip). member_fqdn ?z (Suc i)" ?ps]
    by (simp add: member_fqdn_def)
  have dist: "distinct (map fst ?ps)" by simp
  note lp = member_loop_establishes [OF eff ml dist]
  from lp apart nm have agg5: "fetched c (provider v5) zid agg = fetched c (provider (snd ?r)) zid agg"
    by simp
  from lp have mem5: "\<forall>(i, ip) \<in> set ?ps. fetched c (provider v5) zid (member_fqdn ?z (Suc i)) = Inr [ip]"
    by simp
  have "\<exists>ex'. fetched c (provider v5) zid agg = Inr ex' \<and> \<not> needs_upsert members ex'"
  proof (cases "members = []")
    case True
    then have "provider (snd ?r) = provider v3"
      by (simp add: reconcile_provider needs_upsert_def)
    with agg5 exf True show ?thesis by (simp add: needs_upsert_def)
  next
    case False
    from reconcile_establishes [OF eff exf False, of ?t CreatingNew] agg5
    have "fetched c (provider v5) zid agg = Inr (sort members)" by simp
    moreover have "\<not> needs_upsert members (sort members)"
      using False sort_ne_Nil [of members] sorted_sort_id [OF sorted_sort, of members]
      by (simp add: needs_upsert_def)
    ultimately show ?thesis by blast
  qed
  then obtain ex' where ex': "fetched c (provider v5) zid agg = Inr ex'"
    and quiet: "\<not> needs_upsert members ex'"
    by blast
  \<comment> \<open>the second run\<close>
  obtain u1 where rz2: "resolve_zone c ?z w1 = (Inr zid, u1)"
    and u1: "u1 = emit (ZoneLookup ?z) w1"
    using rz resolve_zone_snd [of c ?z w1]
    by (cases "resolve_zone c ?z w1")
       (auto simp: resolve_zone_def Let_def split: sum.splits option.splits list.splits)
  obtain u2 where gz2: "get_zk_servers h (exhibitor_url a) (logging_info (Managing agg) u1)
                          = (Inr members, u2)"
    using get_zk_servers_fst [of h "exhibitor_url a" w "logging_info (Managing agg) u1"] members
    by (cases "get_zk_servers h (exhibitor_url a) (logging_info (Managing agg) u1)") simp
  have u2: "u2 = emit (HttpGet (rstrip (CHR ''/'') (exhibitor_url a) @ ''/exhibitor/v1/cluster/list'')
             [(''accept'', ''application/json'')]) (logging_info (Managing agg) u1)"
    using get_zk_servers_snd [of h "exhibitor_url a" "logging_info (Managing agg) u1"] gz2 by simp
  let ?u2 = "logging_info (ExhibitorCluster members) u2"
  have pu2: "provider ?u2 = provider v5"
    by (simp add: u2 u1 w1 emit_def logging_info_def)
  obtain u3 where fe2: "fetch_existing_resource_records c zid agg ?u2 = (Inr ex', u3)"
    using fetch_fetched [of c zid agg ?u2] ex' pu2
    by (cases "fetch_existing_resource_records c zid agg ?u2") simp
  have u3: "u3 = emit (ListCall zid agg ''A'') ?u2"
    using fetch_snd [of c zid agg ?u2] fe2 by simp
  obtain u4 where r2: "reconcile c zid agg members ?t CreatingNew ex' u3 = (Inr (), u4)"
    using reconcile_ok [of c zid agg members ?t CreatingNew ex' u3]
    by (cases "reconcile c zid agg members ?t CreatingNew ex' u3") simp
  have pu4: "provider u4 = provider v5"
    using reconcile_provider [of c zid agg members ?t CreatingNew ex' u3] r2 quiet pu2
    by (simp add: u3 emit_def)
  have cu4: "change_calls (trace u4) = change_calls (trace w1)"
    using reconcile_changes [of c zid agg members ?t CreatingNew ex' u3] r2 quiet
    by (simp add: u3 u2 u1 emit_def logging_info_def)
  from mem5 pu4 have "\<forall>(i, ip) \<in> set ?ps. fetched c (provider u4) zid (member_fqdn ?z (Suc i)) = Inr [ip]"
    by simp
  from member_loop_settled [OF this, of ?t] obtain u5 where
    ml2: "member_loop c zid ?z ?t ?ps u4 = (Inr (), u5)"
    and pu5: "provider u5 = provider u4"
    and cu5: "change_calls (trace u5) = change_calls (trace u4)"
    by blast
  have "main c h a w1 = (Inr (), logging_info Done u5)"
    by (simp add: main_def rz2 agg gz2 fe2 r2 ml2)
  moreover have "provider (logging_info Done u5) = provider w1"
    by (simp add: pu5 pu4 w1 logging_info_def emit_def)
  moreover have "change_calls (trace (logging_info Done u5)) = change_calls (trace w1)"
    by (simp add: cu5 cu4 logging_info_def emit_def)
  ultimately show ?thesis by blast
qed

subsection \<open>The reference provider takes upserts into effect\<close>

lemma table_values: "List.map_filter Value (map (\<lambda>v. \<lparr>Value = Some v\<rparr>) vs) = vs"
  by (induction vs) (simp_all add: map_filter_simps)

lemma table_values_concat:
  "concat (map ((\<lambda>r. case Value r of None \<Rightarrow> [] | Some v \<Rightarrow> [v]) \<circ> (\<lambda>v. \<lparr>Value = Some v\<rparr>)) vs)
     = vs"
  by (induction vs) simp_all

lemma table_matching:
  "concat (map record_set_values
     (filter (\<lambda>s. record_set_name s = n) (map table_record_set (filter (\<lambda>e. n \<le> fst e) tab))))
   = concat (map (\<lambda>e. snd (snd e)) (filter (\<lambda>e. fst e = n) tab))"
  by (induction tab)
     (auto simp: table_record_set_def record_set_name_def record_set_values_def table_values)

lemma table_fetched:
  "fetched table_client tab zid n
     = Inr (sort (concat (map (\<lambda>e. snd (snd e)) (filter (\<lambda>e. fst e = n) tab))))"
  by (simp add: fetched_def table_client_def table_list_def existing_of_response_eq
      matching_values_def table_matching)

lemma table_change:
  "snd (change_resource_record_sets table_client tab zid
          (upsert_change n t (map (\<lambda>v. \<lparr>Value = Some v\<rparr>) vs)))
     = (n, t, vs) # filter (\<lambda>e. fst e \<noteq> n) tab"
  by (simp add: table_client_def upsert_change_def table_apply_def table_values_concat)

lemma table_client_takes_effect: "upsert_takes_effect table_client"
proof -
  have 1: "filter (\<lambda>e. fst e \<noteq> n \<and> fst e = n) tab = []" for n and tab :: zone_table
    by (induction tab) auto
  have 2: "filter (\<lambda>e. fst e \<noteq> n \<and> fst e = n') tab = filter (\<lambda>e. fst e = n') tab"
    if "n' \<noteq> n" for n n' and tab :: zone_table
    using that by (induction tab) auto
  show ?thesis
    unfolding upsert_takes_effect_def
    by (simp add: table_fetched table_change 1 2)
qed

subsection \<open>The second run\<close>

text \<open>
  C8, as stated: for every membership and provider state, if an upsert has the effect
  that a later read returns its sorted value list, a second run submits no upsert. With
  \<^verbatim>\<open>--rr zk01\<close> the aggregate record and the record of the first member are the
  same record: each run writes the full member list to it and then the first member's
  address, so the second run submits two upserts again.
\<close>

theorem second_run_name_collision_counterexample:
  "upsert_takes_effect table_client
   \<and> main table_client (static_http two_members) (example_args ''zk01'') (world0 [])
       = (Inr (), after_first_run ''zk01'')
   \<and> fst (main table_client (static_http two_members) (example_args ''zk01'')
            (after_first_run ''zk01'')) = Inr ()
   \<and> change_calls (trace (snd (main table_client (static_http two_members)
                                  (example_args ''zk01'') (after_first_run ''zk01''))))
       = change_calls (trace (after_first_run ''zk01'')) @
           [upsert_change ''zk01.example.com.'' 300
              [\<lparr>Value = Some ''10.0.0.1''\<rparr>, \<lparr>Value = Some ''10.0.0.2''\<rparr>],
            upsert_change ''zk01.example.com.'' 300 [\<lparr>Value = Some ''10.0.0.1''\<rparr>]]
   \<and> change_calls (trace (snd (main table_client (static_http two_members)
                                  (example_args ''zk01'') (after_first_run ''zk01''))))
       \<noteq> change_calls (trace (after_first_run ''zk01''))"
proof -
  let ?m = "main table_client (static_http two_members) (example_args ''zk01'')"
  have 1: "fst (?m (world0 [])) = Inr ()" by code_simp
  then have 2: "?m (world0 []) = (Inr (), after_first_run ''zk01'')"
    unfolding after_first_run_def by (metis prod.collapse)
  have 3: "fst (?m (after_first_run ''zk01'')) = Inr ()" by code_simp
  have 4: "change_calls (trace (snd (?m (after_first_run ''zk01''))))
       = change_calls (trace (after_first_run ''zk01'')) @
           [upsert_change ''zk01.example.com.'' 300
              [\<lparr>Value = Some ''10.0.0.1''\<rparr>, \<lparr>Value = Some ''10.0.0.2''\<rparr>],
            upsert_change ''zk01.example.com.'' 300 [\<lparr>Value = Some ''10.0.0.1''\<rparr>]]"
    by code_simp
  from table_client_takes_effect 2 3 4 show ?thesis by simp
qed

text \<open>
  C8, amended: suppose every upsert of a non-empty value list has the effect that a
  later read of that record returns the sorted value list and reads of all other names
  are unchanged, and suppose the aggregate FQDN is none of the per-member FQDNs. Then
  after a completed run, a second run with the same arguments and unchanged membership
  completes, submits no change and leaves the provider's state as it was. For a single
  record whose existing values are empty or differ from a non-empty desired list, the
  first reconcile step submits exactly one upsert, and a second reconcile step, on the
  values read afterwards, submits none.
\<close>

theorem second_run_submits_no_change:
  assumes eff: "upsert_takes_effect c"
    and run1: "main c h a w = (Inr (), w1)"
    and agg: "aggregate_fqdn (rr a) (zone a) = Inr agg"
    and members: "fst (get_zk_servers h (exhibitor_url a) w) = Inr members"
    and apart: "agg \<notin> set (map (\<lambda>k. ''zk'' @ fmt_02d (k + 1) @ ''.'' @ zone a @ ''.'')
                              [0..<length members])"
  shows "(\<exists>w2. main c h a w1 = (Inr (), w2) \<and> provider w2 = provider w1
            \<and> change_calls (trace w2) = change_calls (trace w1))
       \<and> (fetched c (provider v) zid f = Inr ex \<and> needs_upsert desired ex \<longrightarrow>
            change_calls (trace (snd (reconcile c zid f desired t creating ex v)))
              = change_calls (trace v) @
                  [upsert_change f t (map (\<lambda>x. \<lparr>Value = Some x\<rparr>) desired)]
            \<and> (\<exists>ex'. fetched c (provider (snd (reconcile c zid f desired t creating ex v))) zid f
                       = Inr ex'
                 \<and> change_calls (trace (snd (reconcile c zid f desired t creating ex'
                                               (snd (reconcile c zid f desired t creating ex v)))))
                     = change_calls (trace (snd (reconcile c zid f desired t creating ex v)))))"
proof -
  have B: "change_calls (trace (snd (reconcile c zid f desired t creating ex v)))
              = change_calls (trace v) @
                  [upsert_change f t (map (\<lambda>x. \<lparr>Value = Some x\<rparr>) desired)]
            \<and> (\<exists>ex'. fetched c (provider (snd (reconcile c zid f desired t creating ex v))) zid f
                       = Inr ex'
                 \<and> change_calls (trace (snd (reconcile c zid f desired t creating ex'
                                               (snd (reconcile c zid f desired t creating ex v)))))
                     = change_calls (trace (snd (reconcile c zid f desired t creating ex v))))"
    if ex: "fetched c (provider v) zid f = Inr ex" and nu: "needs_upsert desired ex"
  proof -
    let ?v' = "snd (reconcile c zid f desired t creating ex v)"
    from nu have d: "desired \<noteq> []" by (simp add: needs_upsert_def)
    have 1: "fetched c (provider ?v') zid f = Inr (sort desired)"
      using reconcile_establishes [OF eff ex d] by simp
    have 2: "\<not> needs_upsert desired (sort desired)"
      using d sort_ne_Nil [of desired] sorted_sort_id [OF sorted_sort, of desired]
      by (simp add: needs_upsert_def)
    from 1 2 nu show ?thesis
      by (simp add: reconcile_changes)
  qed
  from main_second_run [OF eff run1 agg members apart] B show ?thesis by blast
qed

theorem second_run_submits_no_change_witness:
  "main table_client (static_http two_members) (example_args ''zk'') (world0 [])
       = (Inr (), after_first_run ''zk'')
   \<and> length (change_calls (trace (after_first_run ''zk''))) = 3
   \<and> fst (main table_client (static_http two_members) (example_args ''zk'')
            (after_first_run ''zk'')) = Inr ()
   \<and> change_calls (trace (snd (main table_client (static_http two_members)
                                  (example_args ''zk'') (after_first_run ''zk''))))
       = change_calls (trace (after_first_run ''zk''))
   \<and> change_calls (trace (snd (reconcile table_client (Some ''Z1'') ''zk.example.com.''
                                  [''1.1.1.1''] 300 CreatingNew [] (world0 []))))
       = [upsert_change ''zk.example.com.'' 300 [\<lparr>Value = Some ''1.1.1.1''\<rparr>]]"
proof -
  let ?a = "example_args ''zk''"
  let ?m = "main table_client (static_http two_members) ?a"
  have 1: "fst (?m (world0 [])) = Inr ()" by code_simp
  then have run1: "?m (world0 []) = (Inr (), after_first_run ''zk'')"
    unfolding after_first_run_def by (metis prod.collapse)
  have agg: "aggregate_fqdn (rr ?a) (zone ?a) = Inr ''zk.example.com.''"
    by code_simp
  have ms: "fst (get_zk_servers (static_http two_members) (exhibitor_url ?a)
                   (world0 ([]::zone_table))) = Inr [''10.0.0.1'', ''10.0.0.2'']"
    by code_simp
  have apart: "''zk.example.com.'' \<notin> set (map (\<lambda>k. ''zk'' @ fmt_02d (k + 1) @ ''.'' @ zone ?a @ ''.'')
                              [0..<length [''10.0.0.1'', ''10.0.0.2'']])"
    by code_simp
  have n: "length (change_calls (trace (after_first_run ''zk''))) = 3" by code_simp
  have f: "fetched table_client (provider (world0 [])) (Some ''Z1'') ''zk.example.com.'' = Inr []
     \<and> needs_upsert [''1.1.1.1''] []"
    by (simp add: table_fetched world0_def needs_upsert_def)
  note t = second_run_submits_no_change [OF table_client_takes_effect run1 agg ms apart,
      of "world0 []" "Some ''Z1''" "''zk.example.com.''" "[]" "[''1.1.1.1'']" 300 CreatingNew]
  from t f have "\<exists>w2. ?m (after_first_run ''zk'') = (Inr (), w2)
       \<and> change_calls (trace w2) = change_calls (trace (after_first_run ''zk''))"
    by blast
  then have s: "fst (?m (after_first_run ''zk'')) = Inr ()
     \<and> change_calls (trace (snd (?m (after_first_run ''zk''))))
       = change_calls (trace (after_first_run ''zk''))"
    by auto
  from t f have r: "change_calls (trace (snd (reconcile table_client (Some ''Z1'') ''zk.example.com.''
                                  [''1.1.1.1''] 300 CreatingNew [] (world0 []))))
       = change_calls (trace (world0 ([]::zone_table))) @
           [upsert_change ''zk.example.com.'' 300 (map (\<lambda>x. \<lparr>Value = Some x\<rparr>) [''1.1.1.1''])]"
    by blast
  from run1 n s r show ?thesis by (simp add: world0_def)
qed

end
